theory Spec2Isabelle
  imports Complex_Main "HOL-Library.Sublist"
begin

section \<open>JavaScript numbers\<close>

text \<open>
  The plugin computes with JavaScript numbers, the binary64 numbers of IEEE 754. A number
  is \<open>NaN\<close>, \<open>-Infinity\<close>, \<open>Infinity\<close> or a finite value, held as the real it denotes.
  Sums, products and quotients of finite values are the exact results rounded to the nearest
  binary64 number, ties to the even significand, and become an infinity on overflow; on the
  special values the arithmetic follows IEEE 754 (\<open>Infinity - Infinity\<close> is \<open>NaN\<close>,
  \<open>x / 0\<close> is an infinity or \<open>NaN\<close>, every comparison with \<open>NaN\<close> is false). The sign
  of zero is not modelled: zero counts as \<open>+0\<close>.
\<close>

datatype jsnum = NaN | NInf | Fin real | PInf

text \<open>The number of binary digits of a positive whole number.\<close>

function bitLength :: "int \<Rightarrow> int" where
  "bitLength n = (if n \<le> 0 then 0 else 1 + bitLength (n div 2))"
  by pat_completeness auto
termination
  by (relation "measure nat") auto

declare bitLength.simps [simp del]

text \<open>The binary exponent \<open>e\<close> of a positive real \<open>m\<close>: \<open>2^e \<le> m < 2^(e + 1)\<close>.\<close>

definition exponent :: "real \<Rightarrow> int" where
  "exponent m = (if 1 \<le> m then bitLength \<lfloor>m\<rfloor> - 1 else - bitLength (\<lceil>1 / m\<rceil> - 1))"

text \<open>The nearest whole number, a tie going to the even one.\<close>

definition roundHalfEven :: "real \<Rightarrow> int" where
  "roundHalfEven r =
     (let f = \<lfloor>r\<rfloor>; rest = r - of_int f
      in if rest < 1 / 2 then f else if 1 / 2 < rest then f + 1 else if even f then f else f + 1)"

text \<open>
  The spacing of the binary64 numbers of exponent \<open>e\<close>: \<open>2^(e - 52)\<close>, since the
  significand has 53 binary digits.
\<close>

definition ulp :: "int \<Rightarrow> real" where
  "ulp e = (if 52 \<le> e then 2 ^ nat (e - 52) else 1 / 2 ^ nat (52 - e))"

text \<open>
  The binary64 number that an exact result is rounded to. Below the exponent \<open>-1022\<close> the
  spacing stays that of the subnormal numbers; a result that rounds to \<open>2^1024\<close> or more is
  an infinity.
\<close>

definition binary64 :: "real \<Rightarrow> jsnum" where
  "binary64 r =
     (if r = 0 then Fin 0
      else let m = \<bar>r\<bar>;
               q = ulp (max (exponent m) (- 1022));
               v = of_int (roundHalfEven (m / q)) * q
           in if 2 ^ 1024 \<le> v then (if r < 0 then NInf else PInf)
              else Fin (if r < 0 then - v else v))"

fun isNeg :: "jsnum \<Rightarrow> bool" where
  "isNeg NInf = True"
| "isNeg (Fin x) = (x < 0)"
| "isNeg _ = False"

instantiation jsnum :: "{plus, uminus, minus, times, inverse, ord}"
begin

fun plus_jsnum :: "jsnum \<Rightarrow> jsnum \<Rightarrow> jsnum" where
  "plus_jsnum NaN _ = NaN"
| "plus_jsnum _ NaN = NaN"
| "plus_jsnum (Fin x) (Fin y) = binary64 (x + y)"
| "plus_jsnum PInf NInf = NaN"
| "plus_jsnum NInf PInf = NaN"
| "plus_jsnum PInf _ = PInf"
| "plus_jsnum _ PInf = PInf"
| "plus_jsnum NInf _ = NInf"
| "plus_jsnum _ NInf = NInf"

fun uminus_jsnum :: "jsnum \<Rightarrow> jsnum" where
  "uminus_jsnum NaN = NaN"
| "uminus_jsnum NInf = PInf"
| "uminus_jsnum (Fin x) = Fin (- x)"
| "uminus_jsnum PInf = NInf"

definition minus_jsnum :: "jsnum \<Rightarrow> jsnum \<Rightarrow> jsnum" where
  "minus_jsnum u v = u + (- v)"

fun times_jsnum :: "jsnum \<Rightarrow> jsnum \<Rightarrow> jsnum" where
  "times_jsnum NaN _ = NaN"
| "times_jsnum _ NaN = NaN"
| "times_jsnum (Fin x) (Fin y) = binary64 (x * y)"
| "times_jsnum u v =
     (if u = Fin 0 \<or> v = Fin 0 then NaN
      else if isNeg u = isNeg v then PInf else NInf)"

fun divide_jsnum :: "jsnum \<Rightarrow> jsnum \<Rightarrow> jsnum" where
  "divide_jsnum NaN _ = NaN"
| "divide_jsnum _ NaN = NaN"
| "divide_jsnum (Fin x) (Fin y) =
     (if y \<noteq> 0 then binary64 (x / y)
      else if x = 0 then NaN
      else if x < 0 then NInf else PInf)"
| "divide_jsnum (Fin x) _ = Fin 0"
| "divide_jsnum u (Fin y) = (if isNeg u = (y < 0) then PInf else NInf)"
| "divide_jsnum _ _ = NaN"

definition inverse_jsnum :: "jsnum \<Rightarrow> jsnum" where
  "inverse_jsnum u =
     (case u of NaN \<Rightarrow> NaN | Fin r \<Rightarrow> (if r = 0 then PInf else binary64 (1 / r)) | _ \<Rightarrow> Fin 0)"

fun less_jsnum :: "jsnum \<Rightarrow> jsnum \<Rightarrow> bool" where
  "less_jsnum NaN _ = False"
| "less_jsnum _ NaN = False"
| "less_jsnum (Fin x) (Fin y) = (x < y)"
| "less_jsnum PInf _ = False"
| "less_jsnum _ PInf = True"
| "less_jsnum _ NInf = False"
| "less_jsnum NInf _ = True"

definition less_eq_jsnum :: "jsnum \<Rightarrow> jsnum \<Rightarrow> bool" where
  "less_eq_jsnum u v = (u \<noteq> NaN \<and> v \<noteq> NaN \<and> (u < v \<or> u = v))"

instance ..

end

text \<open>\<open>==\<close> on numbers: \<open>NaN\<close> equals nothing, not even itself.\<close>

definition js_equals :: "jsnum \<Rightarrow> jsnum \<Rightarrow> bool" where
  "js_equals u v = (u \<noteq> NaN \<and> v \<noteq> NaN \<and> u = v)"

text \<open>\<open>Math.min\<close> and \<open>Math.max\<close> of two arguments: \<open>NaN\<close> if either is \<open>NaN\<close>.\<close>

definition Math_min :: "jsnum \<Rightarrow> jsnum \<Rightarrow> jsnum" where
  "Math_min u v = (if u = NaN \<or> v = NaN then NaN else if v < u then v else u)"

definition Math_max :: "jsnum \<Rightarrow> jsnum \<Rightarrow> jsnum" where
  "Math_max u v = (if u = NaN \<or> v = NaN then NaN else if u < v then v else u)"

text \<open>The errors a call of the plugin can end with.\<close>

datatype jserror = TypeError | SpineError


section \<open>The Spine runtime, as the game object uses it\<close>

text \<open>
  The skeleton, the animation state, skins and animations belong to the Spine runtime
  (\<open>@esotericsoftware/spine-core\<close>), which is outside this repository. Its objects are
  opaque values of the type parameters \<open>'sd\<close> (skeleton data), \<open>'ad\<close> (animation state
  data), \<open>'sk\<close> (skeleton), \<open>'as\<close> (animation state), \<open>'skin\<close> and \<open>'anim\<close>; the methods
  the plugin calls are the fields of the record below. A method that mutates its
  receiver returns the receiver's new value; \<open>AnimationState.apply\<close> touches both the
  animation state and the skeleton, and returns both.
\<close>

record point =
  x :: jsnum
  y :: jsnum

record rect = point +
  width :: jsnum
  height :: jsnum

record ('sd, 'ad, 'sk, 'as, 'skin, 'anim) spine =
  newSkeleton :: "'sd \<Rightarrow> 'sk"
  skeletonData :: "'sk \<Rightarrow> 'sd"
  newAnimationState :: "'ad \<Rightarrow> 'as"
  animationStateData :: "'as \<Rightarrow> 'ad"
  newSkin :: "string \<Rightarrow> 'skin"
  findSkin :: "'sd \<Rightarrow> string \<Rightarrow> 'skin option"
  addSkin :: "'skin \<Rightarrow> 'skin \<Rightarrow> 'skin"
  setSkin :: "'skin \<Rightarrow> 'sk \<Rightarrow> 'sk"
  setToSetupPose :: "'sk \<Rightarrow> 'sk"
  findAnimation :: "'sd \<Rightarrow> string \<Rightarrow> 'anim option"
  duration :: "'anim \<Rightarrow> jsnum"
  updateWorldTransform :: "'sk \<Rightarrow> 'sk"
  getBoundsRect :: "'sk \<Rightarrow> rect"
  clearTracks :: "'as \<Rightarrow> 'as"
  setAnimationWith :: "nat \<Rightarrow> 'anim \<Rightarrow> bool \<Rightarrow> 'as \<Rightarrow> 'as"
  update :: "jsnum \<Rightarrow> 'as \<Rightarrow> 'as"
  applyTo :: "'as \<Rightarrow> 'sk \<Rightarrow> 'as \<times> 'sk"

text \<open>
  The fields of \<open>SpineGameObject\<close> that the bounds providers and \<open>updatePose\<close> read.
  \<open>None\<close> is a field that is not bound yet (\<open>undefined\<close>): the code tests
  \<open>!gameObject.skeleton\<close> and \<open>!gameObject.animationState\<close>.
\<close>

record ('sk, 'as) gameObject =
  skeleton :: "'sk option"
  animationState :: "'as option"

definition zeroRect :: rect where
  "zeroRect = \<lparr>x = Fin 0, y = Fin 0, width = Fin 0, height = Fin 0\<rparr>"


section \<open>Bounds providers\<close>

text \<open>\<open>bounds.width == Number.NEGATIVE_INFINITY ? { x: 0, y: 0, width: 0, height: 0 } : bounds\<close>\<close>

definition collapse :: "rect \<Rightarrow> rect" where
  "collapse bounds = (if js_equals (width bounds) NInf then zeroRect else bounds)"

text \<open>\<open>SetupPoseBoundsProvider.calculateBounds\<close>\<close>

definition SetupPose_calculateBounds ::
  "('sd, 'ad, 'sk, 'as, 'skin, 'anim) spine \<Rightarrow> ('sk, 'as) gameObject \<Rightarrow> rect" where
  "SetupPose_calculateBounds rt gameObj =
     (case skeleton gameObj of
        None \<Rightarrow> zeroRect
      | Some gsk \<Rightarrow>
          let sk = newSkeleton rt (skeletonData rt gsk);
              sk = setToSetupPose rt sk;
              sk = updateWorldTransform rt sk;
              bounds = getBoundsRect rt sk
          in collapse bounds)"

text \<open>
  The fields of \<open>SkinsAndAnimationBoundsProvider\<close>. The constructor's defaults are
  \<open>skins = []\<close> and \<open>timeStep = 0.05\<close>; \<open>animation\<close> is a name or \<open>null\<close>.
\<close>

record provider =
  animation :: "string option"
  skins :: "string list"
  timeStep :: jsnum

definition newProvider :: "string option \<Rightarrow> string list option \<Rightarrow> jsnum option \<Rightarrow> provider" where
  "newProvider anim sks ts =
     \<lparr>animation = anim,
      skins = (case sks of None \<Rightarrow> [] | Some l \<Rightarrow> l),
      timeStep = (case ts of None \<Rightarrow> binary64 (5 / 100) | Some t \<Rightarrow> t)\<rparr>"

text \<open>
  The loop over \<open>this.skins\<close>: every skin the data knows is merged into the custom skin,
  an unknown name is skipped.
\<close>

fun combineSkins ::
  "('sd, 'ad, 'sk, 'as, 'skin, 'anim) spine \<Rightarrow> 'sd \<Rightarrow> 'skin \<Rightarrow> string list \<Rightarrow> 'skin" where
  "combineSkins rt data customSkin [] = customSkin"
| "combineSkins rt data customSkin (skinName # rest) =
     (case findSkin rt data skinName of
        None \<Rightarrow> combineSkins rt data customSkin rest
      | Some skin \<Rightarrow> combineSkins rt data (addSkin rt customSkin skin) rest)"

text \<open>The running corners \<open>minX, minY, maxX, maxY\<close> of the sampling loop.\<close>

record corners =
  minX :: jsnum
  minY :: jsnum
  maxX :: jsnum
  maxY :: jsnum

text \<open>
  The sampling loop \<open>for (let i = 0; i < steps; i++) { ... }\<close>. The counter is a number
  like any other: \<open>i++\<close> adds one and rounds, so the counter stops growing at \<open>2^53\<close>. A
  loop that does not end has the value \<open>None\<close>.
\<close>

partial_function (option) sampleLoop ::
  "('sd, 'ad, 'sk, 'as, 'skin, 'anim) spine \<Rightarrow> jsnum \<Rightarrow> jsnum \<Rightarrow> jsnum \<Rightarrow> 'as \<Rightarrow> 'sk \<Rightarrow> corners
    \<Rightarrow> corners option" where
  "sampleLoop rt ts steps i ast sk acc =
     (if i < steps then
        let ast = update rt (if Fin 0 < i then ts else Fin 0) ast;
            (ast, sk) = applyTo rt ast sk;
            sk = updateWorldTransform rt sk;
            bounds = getBoundsRect rt sk;
            mnX = Math_min (minX acc) (x bounds);
            mnY = Math_min (minY acc) (y bounds);
            mxX = Math_max (maxX acc) (mnX + width bounds);
            mxY = Math_max (maxY acc) (mnY + height bounds)
        in sampleLoop rt ts steps (i + Fin 1) ast sk
             \<lparr>minX = mnX, minY = mnY, maxX = mxX, maxY = mxY\<rparr>
      else Some acc)"

declare sampleLoop.simps [code]

text \<open>\<open>SkinsAndAnimationBoundsProvider.calculateBounds\<close>; \<open>None\<close> when it does not return.\<close>

definition SkinsAndAnimation_calculateBounds ::
  "('sd, 'ad, 'sk, 'as, 'skin, 'anim) spine \<Rightarrow> provider \<Rightarrow> ('sk, 'as) gameObject
    \<Rightarrow> rect option" where
  "SkinsAndAnimation_calculateBounds rt this gameObj =
     (case (skeleton gameObj, animationState gameObj) of
        (None, _) \<Rightarrow> Some zeroRect
      | (_, None) \<Rightarrow> Some zeroRect
      | (Some gsk, Some gas) \<Rightarrow>
          let ast = newAnimationState rt (animationStateData rt gas);
              sk = newSkeleton rt (skeletonData rt gsk);
              data = skeletonData rt sk;
              sk = (if 0 < length (skins this)
                    then setSkin rt (combineSkins rt data (newSkin rt ''custom-skin'') (skins this)) sk
                    else sk);
              sk = setToSetupPose rt sk;
              anim = (case animation this of
                        Some name \<Rightarrow> findAnimation rt data name
                      | None \<Rightarrow> None)
          in (case anim of
                None \<Rightarrow>
                  let sk = updateWorldTransform rt sk;
                      bounds = getBoundsRect rt sk
                  in Some (collapse bounds)
              | Some a \<Rightarrow>
                  let ast = clearTracks rt ast;
                      ast = setAnimationWith rt 0 a False ast;
                      steps = Math_max (duration rt a / timeStep this) (Fin 1)
                  in (case sampleLoop rt (timeStep this) steps (Fin 0) ast sk
                             \<lparr>minX = PInf, minY = PInf, maxX = NInf, maxY = NInf\<rparr> of
                        None \<Rightarrow> None
                      | Some acc \<Rightarrow>
                          Some (collapse \<lparr>x = minX acc, y = minY acc,
                                          width = maxX acc - minX acc,
                                          height = maxY acc - minY acc\<rparr>))))"

text \<open>
  The claim's reading of the animation branch, to be compared with the loop above. The
  transient skeleton and animation state the provider starts from:
\<close>

definition transientSkeleton ::
  "('sd, 'ad, 'sk, 'as, 'skin, 'anim) spine \<Rightarrow> provider \<Rightarrow> 'sk \<Rightarrow> 'sk" where
  "transientSkeleton rt this gsk =
     (let sk = newSkeleton rt (skeletonData rt gsk);
          data = skeletonData rt sk
      in setToSetupPose rt
           (if skins this = [] then sk
            else setSkin rt (combineSkins rt data (newSkin rt ''custom-skin'') (skins this)) sk))"

definition transientData ::
  "('sd, 'ad, 'sk, 'as, 'skin, 'anim) spine \<Rightarrow> 'sk \<Rightarrow> 'sd" where
  "transientData rt gsk = skeletonData rt (newSkeleton rt (skeletonData rt gsk))"

definition transientState ::
  "('sd, 'ad, 'sk, 'as, 'skin, 'anim) spine \<Rightarrow> 'anim \<Rightarrow> 'as \<Rightarrow> 'as" where
  "transientState rt anim gas =
     setAnimationWith rt 0 anim False
       (clearTracks rt (newAnimationState rt (animationStateData rt gas)))"

text \<open>The time advances of \<open>n\<close> samples: \<open>0\<close> for the first, \<open>timeStep\<close> for each later one.\<close>

definition advances :: "jsnum \<Rightarrow> nat \<Rightarrow> jsnum list" where
  "advances ts n = (case n of 0 \<Rightarrow> [] | Suc m \<Rightarrow> Fin 0 # replicate m ts)"

text \<open>
  One sample per advance: update the animation state by the advance, apply it to the
  skeleton, recompute the world transforms, read the bounds.
\<close>

fun sampleRects ::
  "('sd, 'ad, 'sk, 'as, 'skin, 'anim) spine \<Rightarrow> jsnum list \<Rightarrow> 'as \<Rightarrow> 'sk \<Rightarrow> rect list" where
  "sampleRects rt [] ast sk = []"
| "sampleRects rt (dt # dts) ast sk =
     (case applyTo rt (update rt dt ast) sk of
        (ast', sk') \<Rightarrow>
          getBoundsRect rt (updateWorldTransform rt sk')
            # sampleRects rt dts ast' (updateWorldTransform rt sk'))"

text \<open>
  Folding one sample into the running corners: the max corner is taken from the running
  min corner plus the sample's extent.
\<close>

definition foldSample :: "corners \<Rightarrow> rect \<Rightarrow> corners" where
  "foldSample acc sample =
     \<lparr>minX = Math_min (minX acc) (x sample),
      minY = Math_min (minY acc) (y sample),
      maxX = Math_max (maxX acc) (Math_min (minX acc) (x sample) + width sample),
      maxY = Math_max (maxY acc) (Math_min (minY acc) (y sample) + height sample)\<rparr>"

definition sampledBounds :: "rect list \<Rightarrow> rect" where
  "sampledBounds samples =
     (let acc = foldl foldSample \<lparr>minX = PInf, minY = PInf, maxX = NInf, maxY = NInf\<rparr> samples;
          bounds = \<lparr>x = minX acc, y = minY acc,
                    width = maxX acc - minX acc, height = maxY acc - minY acc\<rparr>
      in if js_equals (width bounds) NInf
         then \<lparr>x = Fin 0, y = Fin 0, width = Fin 0, height = Fin 0\<rparr> else bounds)"


section \<open>A runtime that records its calls\<close>

text \<open>
  An instance of the runtime for concrete runs: a skeleton and an animation state are the
  lists of the calls made on them, the bounds of a skeleton depend on the number of calls
  it has seen, the data knows the skin \<open>red\<close> and the animation \<open>walk\<close> of duration
  \<open>0.55\<close>.
\<close>

datatype call = Update jsnum | Apply | BeforeHook | WorldTransform | AfterHook | SetupPose
  | SetSkin "string list" | ClearTracks | SetAnimation nat jsnum bool

definition tracing :: "(nat, nat, call list, call list, string list, jsnum) spine" where
  "tracing =
     \<lparr>newSkeleton = (\<lambda>d. []),
      skeletonData = (\<lambda>sk. 0),
      newAnimationState = (\<lambda>d. []),
      animationStateData = (\<lambda>a. 0),
      newSkin = (\<lambda>name. []),
      findSkin = (\<lambda>d name. if name = ''red'' then Some [name] else None),
      addSkin = (\<lambda>custom skin. custom @ skin),
      setSkin = (\<lambda>skin sk. sk @ [SetSkin skin]),
      setToSetupPose = (\<lambda>sk. sk @ [SetupPose]),
      findAnimation = (\<lambda>d name. if name = ''walk'' then Some (binary64 (55 / 100)) else None),
      duration = (\<lambda>a. a),
      updateWorldTransform = (\<lambda>sk. sk @ [WorldTransform]),
      getBoundsRect = (\<lambda>sk. \<lparr>x = Fin (- real (length sk)), y = Fin (real (length sk)),
                               width = Fin 1, height = Fin 2\<rparr>),
      clearTracks = (\<lambda>a. a @ [ClearTracks]),
      setAnimationWith = (\<lambda>i an loop a. a @ [SetAnimation i an loop]),
      update = (\<lambda>dt a. a @ [Update dt]),
      applyTo = (\<lambda>a sk. (a @ [Apply], sk @ [Apply]))\<rparr>"

text \<open>
  The recording runtime with skeletons that have nothing to draw: the Spine runtime reports
  the bounds of such a skeleton with the origin \<open>Infinity\<close> and the size \<open>-Infinity\<close>.
\<close>

definition nothingToDraw :: "(nat, nat, call list, call list, string list, jsnum) spine" where
  "nothingToDraw =
     tracing\<lparr>getBoundsRect := (\<lambda>sk. \<lparr>x = PInf, y = PInf, width = NInf, height = NInf\<rparr>)\<rparr>"


section \<open>Updating the pose\<close>

text \<open>
  \<open>SpineGameObject.updatePose\<close>. The hooks \<open>beforeUpdateWorldTransforms\<close> and
  \<open>afterUpdateWorldTransforms\<close> are fields of the object that hold functions of the object
  itself; here they are arguments. Calling a method of an unbound field is a \<open>TypeError\<close>;
  \<open>AnimationState.apply\<close> of the runtime rejects a missing skeleton with an error of its
  own. \<open>this.skeleton\<close> is read again after the first hook has run.
\<close>

definition updatePose ::
  "('sd, 'ad, 'sk, 'as, 'skin, 'anim) spine
    \<Rightarrow> (('sk, 'as) gameObject \<Rightarrow> ('sk, 'as) gameObject)
    \<Rightarrow> (('sk, 'as) gameObject \<Rightarrow> ('sk, 'as) gameObject)
    \<Rightarrow> jsnum \<Rightarrow> ('sk, 'as) gameObject \<Rightarrow> jserror + ('sk, 'as) gameObject" where
  "updatePose rt beforeUpdateWorldTransforms afterUpdateWorldTransforms delta this =
     (case animationState this of
        None \<Rightarrow> Inl TypeError
      | Some ast \<Rightarrow>
          let ast = update rt (delta / Fin 1000) ast
          in (case skeleton this of
                None \<Rightarrow> Inl SpineError
              | Some sk \<Rightarrow>
                  let (ast, sk) = applyTo rt ast sk;
                      this = this\<lparr>skeleton := Some sk, animationState := Some ast\<rparr>;
                      this = beforeUpdateWorldTransforms this
                  in (case skeleton this of
                        None \<Rightarrow> Inl TypeError
                      | Some sk \<Rightarrow>
                          let this = this\<lparr>skeleton := Some (updateWorldTransform rt sk)\<rparr>
                          in Inr (afterUpdateWorldTransforms this))))"

text \<open>\<open>SpineGameObject.preUpdate\<close>: nothing happens while a field is unbound.\<close>

definition preUpdate ::
  "('sd, 'ad, 'sk, 'as, 'skin, 'anim) spine
    \<Rightarrow> (('sk, 'as) gameObject \<Rightarrow> ('sk, 'as) gameObject)
    \<Rightarrow> (('sk, 'as) gameObject \<Rightarrow> ('sk, 'as) gameObject)
    \<Rightarrow> jsnum \<Rightarrow> jsnum \<Rightarrow> ('sk, 'as) gameObject \<Rightarrow> jserror + ('sk, 'as) gameObject" where
  "preUpdate rt beforeUpdateWorldTransforms afterUpdateWorldTransforms time delta this =
     (if skeleton this = None \<or> animationState this = None then Inr this
      else updatePose rt beforeUpdateWorldTransforms afterUpdateWorldTransforms delta this)"

text \<open>The five steps of the claim, each as a change of the object.\<close>

definition advanceTime ::
  "('sd, 'ad, 'sk, 'as, 'skin, 'anim) spine \<Rightarrow> jsnum \<Rightarrow> ('sk, 'as) gameObject
    \<Rightarrow> ('sk, 'as) gameObject" where
  "advanceTime rt seconds obj =
     obj\<lparr>animationState := map_option (update rt seconds) (animationState obj)\<rparr>"

definition applyAnimation ::
  "('sd, 'ad, 'sk, 'as, 'skin, 'anim) spine \<Rightarrow> ('sk, 'as) gameObject \<Rightarrow> ('sk, 'as) gameObject" where
  "applyAnimation rt obj =
     (case (animationState obj, skeleton obj) of
        (Some ast, Some sk) \<Rightarrow>
          obj\<lparr>skeleton := Some (snd (applyTo rt ast sk)),
              animationState := Some (fst (applyTo rt ast sk))\<rparr>
      | _ \<Rightarrow> obj)"

definition recomputeWorld ::
  "('sd, 'ad, 'sk, 'as, 'skin, 'anim) spine \<Rightarrow> ('sk, 'as) gameObject \<Rightarrow> ('sk, 'as) gameObject" where
  "recomputeWorld rt obj =
     obj\<lparr>skeleton := map_option (updateWorldTransform rt) (skeleton obj)\<rparr>"

text \<open>Hooks that record their call in both histories of an object of the recording runtime.\<close>

definition recordHook ::
  "call \<Rightarrow> (call list, call list) gameObject \<Rightarrow> (call list, call list) gameObject" where
  "recordHook ev obj =
     obj\<lparr>skeleton := map_option (\<lambda>l. l @ [ev]) (skeleton obj),
         animationState := map_option (\<lambda>l. l @ [ev]) (animationState obj)\<rparr>"


section \<open>Strings\<close>

text \<open>
  A string is a list of code units below 256. \<open>indexOf\<close> is \<open>String.prototype.indexOf\<close>:
  the first position at which the pattern occurs, or \<open>-1\<close>.
\<close>

fun indexOf :: "string \<Rightarrow> string \<Rightarrow> int" where
  "indexOf [] pat = (if pat = [] then 0 else - 1)"
| "indexOf (c # cs) pat =
     (if prefix pat (c # cs) then 0
      else (let r = indexOf cs pat in if r < 0 then - 1 else r + 1))"

text \<open>\<open>data.split(/\r\n|\r|\n/)\<close>: there is always at least one piece.\<close>

definition CR :: char where "CR = CHR 0x0D"
definition LF :: char where "LF = CHR 0x0A"

fun splitLines :: "string \<Rightarrow> string list" where
  "splitLines [] = [[]]"
| "splitLines [c] = (if c = CR \<or> c = LF then [[], []] else [[c]])"
| "splitLines (c # c' # cs) =
     (if c = CR \<and> c' = LF then [] # splitLines cs
      else if c = CR \<or> c = LF then [] # splitLines (c' # cs)
      else (case splitLines (c' # cs) of
              l # ls \<Rightarrow> (c # l) # ls
            | [] \<Rightarrow> [[c]]))"

text \<open>
  \<open>line.trim()\<close> removes white space and line terminators at both ends; below 256 these
  are tab, line feed, vertical tab, form feed, carriage return, space and no-break space.
\<close>

definition isWhiteSpace :: "char \<Rightarrow> bool" where
  "isWhiteSpace c = (c \<in> {CHR 0x09, CHR 0x0A, CHR 0x0B, CHR 0x0C, CHR 0x0D, CHR 0x20, CHR 0xA0})"

definition trim :: "string \<Rightarrow> string" where
  "trim str = rev (dropWhile isWhiteSpace (rev (dropWhile isWhiteSpace str)))"

text \<open>
  \<open>src.match(/^.*\//)\<close>: the longest prefix of the first line of \<open>src\<close> that ends with a
  slash, or \<open>null\<close> (here \<open>None\<close>) when that line has no slash. Concatenating the match
  with a string gives the matched text followed by the string, and \<open>null + str\<close> is the
  text \<open>null\<close> followed by the string.
\<close>

definition matchBasePath :: "string \<Rightarrow> string option" where
  "matchBasePath str =
     (let line = takeWhile (\<lambda>c. c \<noteq> CR \<and> c \<noteq> LF) str
      in if CHR ''/'' \<in> set line
         then Some (rev (dropWhile (\<lambda>c. c \<noteq> CHR ''/'') (rev line)))
         else None)"

definition plusString :: "string option \<Rightarrow> string \<Rightarrow> string" where
  "plusString basePath str = (case basePath of None \<Rightarrow> ''null'' @ str | Some p \<Rightarrow> p @ str)"


section \<open>The loader and its files\<close>

text \<open>
  Modelled from the spec: the files, the multi-file job and the loader of the engine
  (\<open>Phaser.Loader.File\<close>, \<open>MultiFile\<close>, \<open>LoaderPlugin\<close>, the texture manager and the text
  cache) are not part of this repository. A file has a type, a key, the URL it was created
  with, the URL it was loaded from (\<open>src\<close>) and its data; a job has its files, the number
  of files still pending, the number of failed files and a completion flag; the loader has
  the table of the (type, key) pairs of the files it has in its list, in flight or queued,
  the texture manager and the text cache. Two files with the same fields are the same file.
\<close>

datatype 'img fileData = NoData | Text string | Image 'img | Atlas "'img fileData" bool

record 'img loaderFile =
  type :: string
  key :: string
  url :: string
  src :: string
  data :: "'img fileData"

record 'img multiFile =
  files :: "'img loaderFile list"
  pending :: int
  failed :: int
  complete :: bool
  premultipliedAlpha :: bool

record 'img loader =
  fileKeys :: "(string \<times> string) list"
  textureManager :: "string \<rightharpoonup> 'img fileData"
  textCache :: "string \<rightharpoonup> 'img fileData"

definition TextFile :: "string \<Rightarrow> string \<Rightarrow> 'img loaderFile" where
  "TextFile k u = \<lparr>type = ''text'', key = k, url = u, src = [], data = NoData\<rparr>"

definition ImageFile :: "string \<Rightarrow> string \<Rightarrow> 'img loaderFile" where
  "ImageFile k u = \<lparr>type = ''image'', key = k, url = u, src = [], data = NoData\<rparr>"

text \<open>
  Modelled from the spec: \<open>LoaderPlugin.keyExists\<close> (the key is in the cache the file
  would go to, or a file of that type and key is in the loader's table) and
  \<open>LoaderPlugin.addFile\<close> (a file whose key does not exist yet enters the table).
\<close>

definition keyExists :: "'img loader \<Rightarrow> 'img loaderFile \<Rightarrow> bool" where
  "keyExists ld f =
     ((type f = ''image'' \<and> textureManager ld (key f) \<noteq> None)
      \<or> (type f = ''text'' \<and> textCache ld (key f) \<noteq> None)
      \<or> (type f, key f) \<in> set (fileKeys ld))"

definition addFile :: "'img loader \<Rightarrow> 'img loaderFile \<Rightarrow> 'img loader" where
  "addFile ld f =
     (if \<not> keyExists ld f then ld\<lparr>fileKeys := fileKeys ld @ [(type f, key f)]\<rparr> else ld)"

text \<open>
  Modelled from the spec: \<open>MultiFile.addToMultiFile\<close> appends the file to the job, which
  then waits for one file more; \<open>MultiFile.isReadyToProcess\<close> holds when nothing is
  pending, nothing has failed and the job is not complete.
\<close>

definition addToMultiFile :: "'img multiFile \<Rightarrow> 'img loaderFile \<Rightarrow> 'img multiFile" where
  "addToMultiFile mf f = mf\<lparr>files := files mf @ [f], pending := pending mf + 1, complete := False\<rparr>"

definition isReadyToProcess :: "'img multiFile \<Rightarrow> bool" where
  "isReadyToProcess mf = (pending mf = 0 \<and> failed mf = 0 \<and> \<not> complete mf)"

text \<open>
  The constructor of \<open>SpineAtlasFile\<close>, called with positional arguments or with one
  configuration object. In both forms a \<open>premultipliedAlpha\<close> that is not given is \<open>true\<close>.
\<close>

datatype atlasArgs =
  Positional string string "bool option"
| Config string string "bool option"

definition SpineAtlasFile :: "atlasArgs \<Rightarrow> 'img multiFile" where
  "SpineAtlasFile args =
     (case args of
        Positional k u pma \<Rightarrow>
          \<lparr>files = [TextFile k u], pending = 1, failed = 0, complete = False,
           premultipliedAlpha = (case pma of None \<Rightarrow> True | Some flag \<Rightarrow> flag)\<rparr>
      | Config k u pma \<Rightarrow>
          \<lparr>files = [TextFile k u], pending = 1, failed = 0, complete = False,
           premultipliedAlpha = (case pma of Some flag \<Rightarrow> flag | None \<Rightarrow> True)\<rparr>)"

text \<open>
  The scan of \<open>onFileComplete\<close> over the lines,
  \<open>for (var t = 1; t < lines.length; t++)\<close>: the line after a blank line that is not the
  last line is pushed.
\<close>

function scanLines :: "string list \<Rightarrow> nat \<Rightarrow> string list \<Rightarrow> string list" where
  "scanLines lines t textures =
     (if t < length lines then
        (if trim (lines ! t) = [] \<and> int t < int (length lines) - 1
         then scanLines lines (t + 1) (textures @ [lines ! (t + 1)])
         else scanLines lines (t + 1) textures)
      else textures)"
  by pat_completeness auto
termination
  by (relation "measure (\<lambda>(lines, t, textures). length lines - t)") auto

declare scanLines.simps [simp del]

definition discoverTextures :: "string \<Rightarrow> string list" where
  "discoverTextures txt = (let lines = splitLines txt in scanLines lines 1 [lines ! 0])"

text \<open>
  The loop over \<open>textures\<close>: an image file that the loader does not know yet is added to
  the job and to the loader.
\<close>

fun addImages ::
  "'img loader \<Rightarrow> 'img multiFile \<Rightarrow> string option \<Rightarrow> string \<Rightarrow> string list
    \<Rightarrow> 'img loader \<times> 'img multiFile" where
  "addImages ld this basePath fileKey [] = (ld, this)"
| "addImages ld this basePath fileKey (texture # rest) =
     (let u = plusString basePath texture;
          k = fileKey @ ''!'' @ texture;
          image = ImageFile k u
      in if \<not> keyExists ld image
         then addImages (addFile ld image) (addToMultiFile this image) basePath fileKey rest
         else addImages ld this basePath fileKey rest)"

text \<open>\<open>SpineAtlasFile.onFileComplete\<close>; splitting data that is not a string is a \<open>TypeError\<close>.\<close>

definition onFileComplete ::
  "'img loader \<Rightarrow> 'img multiFile \<Rightarrow> 'img loaderFile \<Rightarrow> jserror + 'img loader \<times> 'img multiFile" where
  "onFileComplete ld this f =
     (if f \<in> set (files this) then
        let this = this\<lparr>pending := pending this - 1\<rparr>
        in if type f = ''text'' then
             (case data f of
                Text txt \<Rightarrow>
                  Inr (addImages ld this (matchBasePath (src f)) (key f) (discoverTextures txt))
              | _ \<Rightarrow> Inl TypeError)
           else Inr (ld, this)
      else Inr (ld, this))"

text \<open>
  The loop of \<open>addToCache\<close> over the files of the job: an image goes to the texture
  manager unless its key is there, any other file gets the object
  \<open>{ data, premultipliedAlpha }\<close> as its data and goes to the text cache. The flag is
  \<open>this.premultipliedAlpha || file.data.indexOf("pma: true") >= 0\<close>: the text is searched
  only when the job's flag is false, and searching data that is not a string is a
  \<open>TypeError\<close>.
\<close>

fun cacheFiles ::
  "bool \<Rightarrow> 'img loader \<Rightarrow> 'img loaderFile list \<Rightarrow> jserror + 'img loader \<times> 'img loaderFile list" where
  "cacheFiles pma ld [] = Inr (ld, [])"
| "cacheFiles pma ld (f # rest) =
     (if type f = ''image'' then
        (let ld = (if textureManager ld (key f) = None
                   then ld\<lparr>textureManager := (textureManager ld)(key f \<mapsto> data f)\<rparr>
                   else ld)
         in case cacheFiles pma ld rest of
              Inl e \<Rightarrow> Inl e
            | Inr (ld, rest) \<Rightarrow> Inr (ld, f # rest))
      else
        (case (if pma then Inr True
               else (case data f of
                       Text txt \<Rightarrow> Inr (0 \<le> indexOf txt ''pma: true'')
                     | _ \<Rightarrow> Inl TypeError)) of
           Inl e \<Rightarrow> Inl e
         | Inr flag \<Rightarrow>
             (let f = f\<lparr>data := Atlas (data f) flag\<rparr>;
                  ld = ld\<lparr>textCache := (textCache ld)(key f \<mapsto> data f)\<rparr>
              in case cacheFiles pma ld rest of
                   Inl e \<Rightarrow> Inl e
                 | Inr (ld, rest) \<Rightarrow> Inr (ld, f # rest))))"

text \<open>\<open>SpineAtlasFile.addToCache\<close>\<close>

definition addToCache ::
  "'img loader \<Rightarrow> 'img multiFile \<Rightarrow> jserror + 'img loader \<times> 'img multiFile" where
  "addToCache ld this =
     (if isReadyToProcess this then
        (case cacheFiles (premultipliedAlpha this) ld (files this) of
           Inl e \<Rightarrow> Inl e
         | Inr (ld, fs) \<Rightarrow> Inr (ld, this\<lparr>files := fs\<rparr>))
      else Inr (ld, this))"

text \<open>
  Modelled from the spec: the loader finishing the download of the \<open>i\<close>-th file of a job
  sets the file's \<open>src\<close> and \<open>data\<close>.
\<close>

definition loaded :: "'img multiFile \<Rightarrow> nat \<Rightarrow> string \<Rightarrow> 'img fileData \<Rightarrow> 'img multiFile" where
  "loaded mf i source content =
     mf\<lparr>files := (files mf)[i := (files mf ! i)\<lparr>src := source, data := content\<rparr>]\<rparr>"

definition emptyLoader :: "'img loader" where
  "emptyLoader = \<lparr>fileKeys = [], textureManager = Map.empty, textCache = Map.empty\<rparr>"


text \<open>Two atlas texts with two pages each, lines separated by line feeds.\<close>

definition nl :: string where
  "nl = [LF]"

text \<open>A blank line after each page name and between the page blocks.\<close>

definition blankAfterNamePayload :: string where
  "blankAfterNamePayload =
     ''page1.png'' @ nl @ nl @ ''size:100,100'' @ nl @ ''...'' @ nl @ nl
       @ ''page2.png'' @ nl @ nl @ ''...''"

text \<open>Blank lines between the page blocks only, as the atlas format has them.\<close>

definition twoPagePayload :: string where
  "twoPagePayload =
     ''page1.png'' @ nl @ ''size:100,100'' @ nl @ ''...'' @ nl @ nl
       @ ''page2.png'' @ nl @ ''...''"

text \<open>
  The lines that directly follow a blank line, the last line not counting as a blank one:
  what the scan of \<open>onFileComplete\<close> collects, stated on the list itself.
\<close>

fun afterBlank :: "string list \<Rightarrow> string list" where
  "afterBlank (l # next # rest) =
     (if trim l = [] then next # afterBlank (next # rest) else afterBlank (next # rest))"
| "afterBlank _ = []"

text \<open>An atlas job whose text file has been downloaded, for concrete runs.\<close>

definition downloadedAtlas :: "atlasArgs \<Rightarrow> string \<Rightarrow> string \<Rightarrow> nat multiFile" where
  "downloadedAtlas args source txt = loaded (SpineAtlasFile args) 0 source (Text txt)"


text \<open>The key that a call of the constructor supplies.\<close>

definition suppliedKey :: "atlasArgs \<Rightarrow> string" where
  "suppliedKey args = (case args of Positional k u pma \<Rightarrow> k | Config k u pma \<Rightarrow> k)"

text \<open>The \<open>premultipliedAlpha\<close> argument that a call of the constructor supplies, if any.\<close>

definition suppliedFlag :: "atlasArgs \<Rightarrow> bool option" where
  "suppliedFlag args = (case args of Positional k u pma \<Rightarrow> pma | Config k u pma \<Rightarrow> pma)"

text \<open>
  Modelled from the spec: a whole load of one atlas by the engine's loader. The text
  arrives from \<open>source\<close> and the job is told; then each image file the job has by then
  arrives from its URL and the job is told; then the loader calls \<open>addToCache\<close>.
\<close>

fun completeImages ::
  "'img loader \<Rightarrow> 'img multiFile \<Rightarrow> 'img \<Rightarrow> nat list \<Rightarrow> jserror + 'img loader \<times> 'img multiFile" where
  "completeImages ld job img [] = Inr (ld, job)"
| "completeImages ld job img (i # rest) =
     (let job = loaded job i (url (files job ! i)) (Image img)
      in case onFileComplete ld job (files job ! i) of
           Inl e \<Rightarrow> Inl e
         | Inr (ld, job) \<Rightarrow> completeImages ld job img rest)"

text \<open>An image file of a job after its download: loaded from its URL, with the image as data.\<close>

definition downloadedImage :: "'img \<Rightarrow> 'img loaderFile \<Rightarrow> 'img loaderFile" where
  "downloadedImage img f = f\<lparr>src := url f, data := Image img\<rparr>"

definition loadAtlas ::
  "'img loader \<Rightarrow> atlasArgs \<Rightarrow> string \<Rightarrow> string \<Rightarrow> 'img \<Rightarrow> jserror + 'img loader \<times> 'img multiFile" where
  "loadAtlas ld args source txt img =
     (let job = loaded (SpineAtlasFile args) 0 source (Text txt)
      in case onFileComplete ld job (files job ! 0) of
           Inl e \<Rightarrow> Inl e
         | Inr (ld, job) \<Rightarrow>
             (case completeImages ld job img [1..<length (files job)] of
                Inl e \<Rightarrow> Inl e
              | Inr (ld, job) \<Rightarrow> addToCache ld job))"


section \<open>The plugin's caches\<close>

text \<open>
  The texture atlas and the skeleton readers belong to the Spine runtime; the plugin
  calls the constructors and methods below. A constructor or reader may throw.
  \<open>setTexture i\<close> is \<open>setTexture\<close> on the \<open>i\<close>-th page of the atlas, \<open>pageNames\<close> lists the
  \<open>name\<close> of every page.
\<close>

record ('atlas, 'tex, 'img, 'sd, 'json, 'bin) spineIO =
  newTextureAtlas :: "string option \<Rightarrow> jserror + 'atlas"
  pageNames :: "'atlas \<Rightarrow> string list"
  setTexture :: "nat \<Rightarrow> 'tex \<Rightarrow> 'atlas \<Rightarrow> 'atlas"
  newGLTexture :: "'img fileData option \<Rightarrow> 'tex"
  newCanvasTexture :: "'img fileData option \<Rightarrow> 'tex"
  readSkeletonJson :: "'atlas \<Rightarrow> 'json \<Rightarrow> jserror + 'sd"
  readSkeletonBinary :: "'atlas \<Rightarrow> 'bin option \<Rightarrow> jserror + 'sd"

text \<open>
  Modelled from the spec: the caches of the game that the plugin reads and writes, the
  engine's text, JSON and binary caches and texture manager (shared with the loader) and
  the plugin's two custom caches.
\<close>

record ('img, 'atlas, 'sd, 'json, 'bin) game = "'img loader" +
  isWebGL :: bool
  atlasCache :: "string \<rightharpoonup> 'atlas"
  skeletonDataCache :: "string \<rightharpoonup> 'sd"
  jsonCache :: "string \<rightharpoonup> 'json"
  binaryCache :: "string \<rightharpoonup> 'bin"

text \<open>The loop \<open>for (let atlasPage of atlas.pages)\<close> of \<open>getAtlas\<close>, with the texture constructor
  of the renderer in use.\<close>

fun setPageTextures ::
  "('atlas, 'tex, 'img, 'sd, 'json, 'bin) spineIO \<Rightarrow> ('img fileData option \<Rightarrow> 'tex)
    \<Rightarrow> (string \<rightharpoonup> 'img fileData) \<Rightarrow> string \<Rightarrow> nat \<Rightarrow> string list \<Rightarrow> 'atlas \<Rightarrow> 'atlas" where
  "setPageTextures io newTexture textures atlasKey i [] atlas = atlas"
| "setPageTextures io newTexture textures atlasKey i (name # rest) atlas =
     setPageTextures io newTexture textures atlasKey (i + 1) rest
       (setTexture io i (newTexture (textures (atlasKey @ ''!'' @ name))) atlas)"

text \<open>\<open>SpinePlugin.getAtlas\<close>; reading \<open>data\<close> of a missing cache entry is a \<open>TypeError\<close>.\<close>

definition getAtlas ::
  "('atlas, 'tex, 'img, 'sd, 'json, 'bin) spineIO \<Rightarrow> ('img, 'atlas, 'sd, 'json, 'bin) game
    \<Rightarrow> string \<Rightarrow> jserror + 'atlas \<times> ('img, 'atlas, 'sd, 'json, 'bin) game" where
  "getAtlas io gm atlasKey =
     (case atlasCache gm atlasKey of
        Some atlas \<Rightarrow> Inr (atlas, gm)
      | None \<Rightarrow>
          (case textCache gm atlasKey of
             None \<Rightarrow> Inl TypeError
           | Some atlasFile \<Rightarrow>
               (case newTextureAtlas io
                       (case atlasFile of Atlas (Text txt) pma \<Rightarrow> Some txt | _ \<Rightarrow> None) of
                  Inl e \<Rightarrow> Inl e
                | Inr atlas \<Rightarrow>
                    let atlas =
                          (if isWebGL gm
                           then setPageTextures io (newGLTexture io) (textureManager gm)
                                  atlasKey 0 (pageNames io atlas) atlas
                           else setPageTextures io (newCanvasTexture io) (textureManager gm)
                                  atlasKey 0 (pageNames io atlas) atlas)
                    in Inr (atlas, gm\<lparr>atlasCache := (atlasCache gm)(atlasKey \<mapsto> atlas)\<rparr>))))"

text \<open>\<open>SpinePlugin.isAtlasPremultiplied\<close>; a cache entry without the flag counts as \<open>false\<close>.\<close>

definition isAtlasPremultiplied :: "('img, 'atlas, 'sd, 'json, 'bin) game \<Rightarrow> string \<Rightarrow> bool" where
  "isAtlasPremultiplied gm atlasKey =
     (case textCache gm atlasKey of
        None \<Rightarrow> False
      | Some atlasFile \<Rightarrow> (case atlasFile of Atlas content pma \<Rightarrow> pma | _ \<Rightarrow> False))"

text \<open>\<open>SpinePlugin.getSkeletonData\<close>\<close>

definition getSkeletonData ::
  "('atlas, 'tex, 'img, 'sd, 'json, 'bin) spineIO \<Rightarrow> ('img, 'atlas, 'sd, 'json, 'bin) game
    \<Rightarrow> string \<Rightarrow> string \<Rightarrow> jserror + 'sd \<times> ('img, 'atlas, 'sd, 'json, 'bin) game" where
  "getSkeletonData io gm dataKey atlasKey =
     (case getAtlas io gm atlasKey of
        Inl e \<Rightarrow> Inl e
      | Inr (atlas, gm) \<Rightarrow>
          let combinedKey = dataKey @ atlasKey
          in (case skeletonDataCache gm combinedKey of
                Some skelData \<Rightarrow> Inr (skelData, gm)
              | None \<Rightarrow>
                  (case (case jsonCache gm dataKey of
                           Some jsonFile \<Rightarrow> readSkeletonJson io atlas jsonFile
                         | None \<Rightarrow> readSkeletonBinary io atlas (binaryCache gm dataKey)) of
                     Inl e \<Rightarrow> Inl e
                   | Inr skelData \<Rightarrow>
                       Inr (skelData,
                            gm\<lparr>skeletonDataCache :=
                                 (skeletonDataCache gm)(combinedKey \<mapsto> skelData)\<rparr>))))"

text \<open>
  Readers for concrete runs: an atlas is its text, skeleton data records the atlas and the
  file it was read from.
\<close>

datatype builtData = FromJson string string | FromBinary string "string option"

definition symbolicIO :: "(string, nat, nat, builtData, string, string) spineIO" where
  "symbolicIO =
     \<lparr>newTextureAtlas = (\<lambda>txt. case txt of None \<Rightarrow> Inl SpineError | Some t \<Rightarrow> Inr t),
      pageNames = (\<lambda>atlas. []),
      setTexture = (\<lambda>i texture atlas. atlas),
      newGLTexture = (\<lambda>source. 0),
      newCanvasTexture = (\<lambda>source. 1),
      readSkeletonJson = (\<lambda>atlas jsonFile. Inr (FromJson atlas jsonFile)),
      readSkeletonBinary = (\<lambda>atlas binaryFile. Inr (FromBinary atlas binaryFile))\<rparr>"

definition loadedGame :: "(nat, string, builtData, string, string) game" where
  "loadedGame =
     \<lparr>fileKeys = [],
      textureManager = Map.empty,
      textCache = [''c'' \<mapsto> Atlas (Text ''atlas c'') False,
                   ''bc'' \<mapsto> Atlas (Text ''atlas bc'') False],
      isWebGL = True,
      atlasCache = Map.empty,
      skeletonDataCache = Map.empty,
      jsonCache = [''ab'' \<mapsto> ''skeleton ab'', ''a'' \<mapsto> ''skeleton a''],
      binaryCache = Map.empty\<rparr>"


text \<open>The game after \<open>getSkeletonData\<close> has been called with the keys \<open>ab\<close> and \<open>c\<close>.\<close>

definition gameAfterFirstCall :: "(nat, string, builtData, string, string) game" where
  "gameAfterFirstCall = loadedGame
     \<lparr>atlasCache := [''c'' \<mapsto> ''atlas c''],
      skeletonDataCache := [''abc'' \<mapsto> FromJson ''atlas c'' ''skeleton ab'']\<rparr>"


section \<open>Coordinate transforms\<close>

text \<open>The components of the engine's \<open>TransformMatrix\<close>.\<close>

record matrix =
  a :: jsnum
  b :: jsnum
  c :: jsnum
  d :: jsnum
  tx :: jsnum
  ty :: jsnum

text \<open>
  Modelled from the spec: \<open>TransformMatrix.invert\<close> of the engine is not part of this
  repository; it computes the matrix inverse of the transform, dividing the adjugate by
  the determinant \<open>a * d - b * c\<close>.
\<close>

definition invert :: "matrix \<Rightarrow> matrix" where
  "invert transform =
     (let n = a transform * d transform - b transform * c transform
      in \<lparr>a = d transform / n,
          b = - b transform / n,
          c = - c transform / n,
          d = a transform / n,
          tx = (c transform * ty transform - d transform * tx transform) / n,
          ty = - (a transform * ty transform - b transform * tx transform) / n\<rparr>)"

text \<open>
  \<open>skeletonToPhaserWorldCoordinates\<close> and \<open>phaserWorldCoordinatesToSkeleton\<close>; \<open>transform\<close>
  is the matrix that \<open>this.getWorldTransformMatrix()\<close> returns.
\<close>

definition skeletonToPhaserWorldCoordinates :: "matrix \<Rightarrow> point \<Rightarrow> point" where
  "skeletonToPhaserWorldCoordinates transform pt =
     (let px = x pt; py = y pt
      in pt\<lparr>x := px * a transform + py * c transform + tx transform,
            y := px * b transform + py * d transform + ty transform\<rparr>)"

definition phaserWorldCoordinatesToSkeleton :: "matrix \<Rightarrow> point \<Rightarrow> point" where
  "phaserWorldCoordinatesToSkeleton transform pt =
     (let transform = invert transform;
          px = x pt; py = y pt
      in pt\<lparr>x := px * a transform + py * c transform + tx transform,
            y := px * b transform + py * d transform + ty transform\<rparr>)"

text \<open>
  The exact values of the results that the two conversions compute one after the other for
  the transform \<open>(ma, mb, mc, md, mtx, mty)\<close> and the point \<open>(px, py)\<close>: the products and sums
  of the conversion to world coordinates, the determinant, the components of the inverse,
  and the products and sums of the conversion back.
\<close>

definition roundTripResults ::
  "real \<Rightarrow> real \<Rightarrow> real \<Rightarrow> real \<Rightarrow> real \<Rightarrow> real \<Rightarrow> real \<Rightarrow> real \<Rightarrow> real list" where
  "roundTripResults ma mb mc md mtx mty px py =
     (let wx = px * ma + py * mc + mtx;
          wy = px * mb + py * md + mty;
          n = ma * md - mb * mc;
          ia = md / n; ib = - mb / n; ic = - mc / n; id = ma / n;
          itx = (mc * mty - md * mtx) / n;
          ity = - (ma * mty - mb * mtx) / n
      in [px * ma, py * mc, px * ma + py * mc, wx,
          px * mb, py * md, px * mb + py * md, wy,
          ma * md, mb * mc, n, ia, ib, ic, id,
          mc * mty, md * mtx, mc * mty - md * mtx, itx,
          ma * mty, mb * mtx, ma * mty - mb * mtx, ity,
          wx * ia, wy * ic, wx * ia + wy * ic, wx * ia + wy * ic + itx,
          wx * ib, wy * id, wx * ib + wy * id, wx * ib + wy * id + ity])"

text \<open>A real that is a binary64 number: rounding leaves it as it is.\<close>

definition representable :: "real \<Rightarrow> bool" where
  "representable r = (binary64 r = Fin r)"


section \<open>Properties of the numbers\<close>

lemma bitLength_nonneg: "0 \<le> bitLength n"
proof (induction n rule: bitLength.induct)
  case (1 n)
  then show ?case
    by (subst bitLength.simps) simp
qed

lemma bitLength_pos: "0 < n \<Longrightarrow> 1 \<le> bitLength n"
  using bitLength_nonneg [of "n div 2"] by (subst bitLength.simps) simp

lemma bitLength_bounds:
  "0 < n \<Longrightarrow> 2 ^ nat (bitLength n - 1) \<le> n \<and> n < 2 ^ nat (bitLength n)"
proof (induction n rule: bitLength.induct)
  case (1 n)
  show ?case
  proof (cases "n = 1")
    case True
    then show ?thesis
      by (simp add: bitLength.simps [of 1] bitLength.simps [of 0])
  next
    case False
    with "1.prems" have h: "0 < n div 2" by simp
    have pos: "\<not> n \<le> 0" using "1.prems" by simp
    from "1.IH" [OF pos h] have
      lo: "2 ^ nat (bitLength (n div 2) - 1) \<le> n div 2" and hi: "n div 2 < 2 ^ nat (bitLength (n div 2))"
      by simp_all
    have b: "bitLength n = 1 + bitLength (n div 2)"
      using pos by (subst bitLength.simps) simp
    have bp: "1 \<le> bitLength (n div 2)" using h by (rule bitLength_pos)
    have e1: "nat (bitLength n - 1) = Suc (nat (bitLength (n div 2) - 1))"
      using b bp by simp
    have e2: "nat (bitLength n) = Suc (nat (bitLength (n div 2)))"
      using b bp by simp
    have "2 * 2 ^ nat (bitLength (n div 2) - 1) \<le> n" using lo by linarith
    moreover have "n < 2 * 2 ^ nat (bitLength (n div 2))" using hi by linarith
    ultimately show ?thesis by (simp add: e1 e2)
  qed
qed

lemma roundHalfEven_of_int: "roundHalfEven (of_int z) = z"
  by (simp add: roundHalfEven_def)

text \<open>Whole numbers up to \<open>2^53\<close> are binary64 numbers: rounding leaves them as they are.\<close>

lemma binary64_nat_whole:
  assumes "0 < n" and "n \<le> 2 ^ 53"
  shows "binary64 (of_int n) = Fin (of_int n)"
proof -
  define e where "e = bitLength n - 1"
  have ex: "exponent (of_int n) = e"
    using assms(1) by (simp add: exponent_def e_def)
  have e0: "0 \<le> e" using bitLength_pos [OF assms(1)] by (simp add: e_def)
  have lo: "(2::int) ^ nat e \<le> n" and hi: "n < 2 ^ nat (e + 1)"
    using bitLength_bounds [OF assms(1)] by (simp_all add: e_def)
  have "(2::int) ^ nat e \<le> 2 ^ 53" using lo assms(2) by linarith
  then have e53: "nat e \<le> 53"
    using power_le_imp_le_exp [of "2::int" "nat e" 53] by simp
  have whole: "\<exists>z. of_int n / ulp e = of_int z \<and> of_int z * ulp e = (of_int n :: real)"
  proof (cases "52 \<le> e")
    case False
    then have "ulp e = 1 / 2 ^ nat (52 - e)" by (simp add: ulp_def)
    then have "of_int n / ulp e = of_int (n * 2 ^ nat (52 - e))
               \<and> of_int (n * 2 ^ nat (52 - e)) * ulp e = (of_int n :: real)"
      by simp
    then show ?thesis by blast
  next
    case True
    show ?thesis
    proof (cases "e = 52")
      case True
      then have "ulp e = 1" by (simp add: ulp_def)
      then have "of_int n / ulp e = of_int n \<and> of_int n * ulp e = (of_int n :: real)" by simp
      then show ?thesis by blast
    next
      case False
      with \<open>52 \<le> e\<close> e53 e0 have e: "e = 53" by linarith
      then have "(2::int) ^ 53 \<le> n" using lo by simp
      with assms(2) have n: "n = 2 ^ 53" by simp
      have "ulp e = 2" using e by (simp add: ulp_def)
      then have "of_int n / ulp e = of_int (2 ^ 52) \<and> of_int (2 ^ 52) * ulp e = (of_int n :: real)"
        using n by simp
      then show ?thesis by blast
    qed
  qed
  then obtain z where z: "of_int n / ulp e = of_int z" "of_int z * ulp e = (of_int n :: real)"
    by blast
  have small: "\<not> (2::real) ^ 1024 \<le> of_int n"
  proof -
    have "(of_int n :: real) \<le> 2 ^ 53" using assms(2) by (metis of_int_le_iff of_int_numeral of_int_power)
    moreover have "(2::real) ^ 53 < 2 ^ 1024" by simp
    ultimately show ?thesis by linarith
  qed
  have m: "max e (- 1022) = e" using e0 by simp
  show ?thesis
    using assms(1) small
    by (simp add: binary64_def ex m z roundHalfEven_of_int Let_def)
qed

lemma binary64_whole:
  assumes "\<bar>k\<bar> \<le> 2 ^ 53"
  shows "binary64 (of_int k) = Fin (of_int k)"
proof (cases "k = 0")
  case True
  then show ?thesis by (simp add: binary64_def)
next
  case False
  then have p: "0 < \<bar>k\<bar>" by simp
  from binary64_nat_whole [OF p assms] have a: "binary64 (of_int \<bar>k\<bar>) = Fin (of_int \<bar>k\<bar>)" .
  show ?thesis
  proof (cases "0 < k")
    case True
    with a show ?thesis by simp
  next
    case neg: False
    with False have k: "k < 0" by simp
    have "binary64 (- of_int \<bar>k\<bar>) = Fin (- of_int \<bar>k\<bar>)"
      using a p by (simp add: binary64_def Let_def split: if_splits)
    then show ?thesis using k by simp
  qed
qed

lemma binary64_numeral:
  "numeral w \<le> (2 ^ 53 :: int) \<Longrightarrow> binary64 (numeral w) = Fin (numeral w)"
  using binary64_whole [of "numeral w"] by simp

lemma binary64_neg_numeral:
  "numeral w \<le> (2 ^ 53 :: int) \<Longrightarrow> binary64 (- numeral w) = Fin (- numeral w)"
  using binary64_whole [of "- numeral w"] by simp

lemma binary64_0: "binary64 0 = Fin 0"
  by (simp add: binary64_def)

lemma binary64_1: "binary64 1 = Fin 1"
  using binary64_whole [of 1] by simp

lemmas binary64_wholes = binary64_numeral binary64_neg_numeral binary64_0 binary64_1

text \<open>The counter of the sampling loop: \<open>i++\<close> is exact below \<open>2^53\<close> and has no effect there.\<close>

lemma counter_next:
  assumes "k < 2 ^ 53"
  shows "Fin (real k) + Fin 1 = Fin (real (Suc k))"
proof -
  have "\<bar>int k + 1\<bar> \<le> 2 ^ 53" using assms by simp
  from binary64_whole [OF this] show ?thesis by (simp add: add.commute)
qed

lemma counter_stuck: "Fin (2 ^ 53) + Fin 1 = Fin (2 ^ 53)"
  unfolding plus_jsnum.simps binary64_def Let_def
  apply (simp add: exponent_def bitLength.simps)
  apply (simp add: ulp_def)
  apply (simp add: roundHalfEven_def)
  done

text \<open>The binary64 numbers nearest to \<open>0.55\<close> and \<open>0.05\<close>, and their quotient.\<close>

lemma binary64_055: "binary64 (55 / 100) = Fin (2476979795053773 / 4503599627370496)"
  unfolding binary64_def Let_def
  apply (simp add: exponent_def bitLength.simps)
  apply (simp add: ulp_def)
  apply (simp add: roundHalfEven_def)
  done

lemma binary64_005: "binary64 (5 / 100) = Fin (3602879701896397 / 72057594037927936)"
  unfolding binary64_def Let_def
  apply (simp add: exponent_def bitLength.simps)
  apply (simp add: ulp_def)
  apply (simp add: roundHalfEven_def)
  done

lemma quotient_055_005:
  "Fin (2476979795053773 / 4503599627370496) / Fin (3602879701896397 / 72057594037927936) = Fin 11"
  unfolding divide_jsnum.simps binary64_def Let_def
  apply (simp add: exponent_def bitLength.simps)
  apply (simp add: ulp_def)
  apply (simp add: roundHalfEven_def)
  done

text \<open>The binary64 number nearest to \<open>0.016\<close>, and the halves \<open>0.5\<close>, \<open>1.5\<close> and \<open>5.5\<close>.\<close>

lemma binary64_0016: "binary64 (2 / 125) = Fin (1152921504606847 / 72057594037927936)"
  unfolding binary64_def Let_def
  apply (simp add: exponent_def bitLength.simps)
  apply (simp add: ulp_def)
  apply (simp add: roundHalfEven_def)
  done

lemma binary64_halves:
  "binary64 (1 / 2) = Fin (1 / 2)"
  "binary64 (- (1 / 2)) = Fin (- (1 / 2))"
  "binary64 (3 / 2) = Fin (3 / 2)"
  "binary64 (11 / 2) = Fin (11 / 2)"
  unfolding binary64_def Let_def
     apply (simp_all add: exponent_def bitLength.simps)
     apply (simp_all add: ulp_def)
     apply (simp_all add: roundHalfEven_def)
  done

text \<open>
  The binary64 number nearest to \<open>0.1\<close>, the sum of it and \<open>0.5\<close>, which is rounded, and
  the difference of that sum and \<open>0.5\<close>.
\<close>

lemma binary64_tenth_steps:
  "binary64 (3602879701896397 / 36028797018963968) = Fin (3602879701896397 / 36028797018963968)"
  "binary64 (21617278211378381 / 36028797018963968) = Fin (5404319552844595 / 9007199254740992)"
  "binary64 (5404319552844595 / 9007199254740992) = Fin (5404319552844595 / 9007199254740992)"
  "binary64 (900719925474099 / 9007199254740992) = Fin (900719925474099 / 9007199254740992)"
  unfolding binary64_def Let_def
     apply (simp_all add: exponent_def bitLength.simps)
     apply (simp_all add: ulp_def)
     apply (simp_all add: roundHalfEven_def)
  done


section \<open>Properties of the bounds providers\<close>

lemma loop_guard: "(Fin (real i) < Fin s) = (i < nat \<lceil>s\<rceil>)"
  by (simp add: less_ceiling_iff nat_less_iff) linarith?

lemma advances_upt: "advances ts n = map (\<lambda>k. if 0 < k then ts else Fin 0) [0..<n]"
proof (cases n)
  case 0
  then show ?thesis by (simp add: advances_def)
next
  case (Suc m)
  have "map (\<lambda>k. if 0 < k then ts else Fin 0) [Suc 0..<Suc m] = replicate m ts"
    by (induction m) (simp_all add: replicate_append_same)
  then show ?thesis using Suc by (simp add: advances_def upt_conv_Cons del: upt_Suc)
qed

lemma sampleLoop_upto:
  assumes guard: "\<And>k. (Fin (real k) < steps) = (k < n)" and n: "n \<le> 2 ^ 53"
  shows "sampleLoop rt ts steps (Fin (real i)) ast sk acc
     = Some (foldl foldSample acc
         (sampleRects rt (map (\<lambda>k. if 0 < k then ts else Fin 0) [i..<n]) ast sk))"
proof (induction "n - i" arbitrary: i ast sk acc)
  case 0
  then have ge: "\<not> i < n" by arith
  have "sampleLoop rt ts steps (Fin (real i)) ast sk acc = Some acc"
    by (subst sampleLoop.simps) (simp only: guard ge if_False)
  then show ?case using ge by simp
next
  case (Suc d)
  then have lt: "i < n" and d: "d = n - Suc i" by arith+
  have "i < 2 ^ 53" using lt n by linarith
  then have nxt: "Fin (real i) + Fin 1 = Fin (real (Suc i))" by (rule counter_next)
  have pos: "(Fin 0 < Fin (real i)) = (0 < i)" by simp
  have step: "sampleLoop rt ts steps (Fin (real (Suc i))) ast' sk' acc'
      = Some (foldl foldSample acc'
          (sampleRects rt (map (\<lambda>k. if 0 < k then ts else Fin 0) [Suc i..<n]) ast' sk'))"
    for ast' sk' acc'
    by (rule Suc.hyps(1) [OF d])
  show ?case
    apply (subst sampleLoop.simps)
    apply (simp only: guard lt if_True nxt pos Let_def split_def step)
    apply (simp add: upt_conv_Cons lt Let_def foldSample_def split_def del: upt_Suc)
    done
qed

lemma sampleLoop_fold:
  assumes "s \<le> 2 ^ 53"
  shows "sampleLoop rt ts (Fin s) (Fin 0) ast sk acc
     = Some (foldl foldSample acc
         (sampleRects rt (map (\<lambda>k. if 0 < k then ts else Fin 0) [0..<nat \<lceil>s\<rceil>]) ast sk))"
proof -
  have "\<lceil>s\<rceil> \<le> 2 ^ 53" using assms by (simp add: ceiling_le_iff)
  then have "nat \<lceil>s\<rceil> \<le> 2 ^ 53" by simp
  from sampleLoop_upto [of "Fin s" "nat \<lceil>s\<rceil>" rt ts 0 ast sk acc, OF loop_guard this]
  show ?thesis by simp
qed

lemma steps_at_least_one: "Math_max u (Fin 1) = Fin s \<Longrightarrow> 1 \<le> s"
  by (cases u) (auto simp add: Math_max_def split: if_splits)

text \<open>
  C3: with an animation that the data knows and \<open>steps = max(duration / timeStep, 1)\<close> (the
  quotient rounded as the language rounds it) finite and at most \<open>2^53\<close>,
  \<open>SkinsAndAnimationBoundsProvider.calculateBounds\<close> takes one sample for each whole number
  from \<open>0\<close> below \<open>steps\<close> (that is \<open>steps\<close> samples, rounded up when \<open>steps\<close> is not
  whole), advances the animation state by \<open>0\<close> for the first sample and by \<open>timeStep\<close> for
  every later one, folds every sample into the running corners with the max corner computed
  from the running min corner, and returns \<open>{minX, minY, maxX - minX, maxY - minY}\<close>, or the
  all-zero rectangle when that width is \<open>-Infinity\<close>.
\<close>

theorem sampling_loop:
  assumes "skeleton gameObj = Some gsk" and "animationState gameObj = Some gas"
    and "animation this = Some name"
    and "findAnimation rt (transientData rt gsk) name = Some anim"
    and "Math_max (duration rt anim / timeStep this) (Fin 1) = Fin s"
    and "s \<le> 2 ^ 53"
  shows "SkinsAndAnimation_calculateBounds rt this gameObj
           = Some (sampledBounds
               (sampleRects rt (advances (timeStep this) (nat \<lceil>s\<rceil>))
                  (transientState rt anim gas) (transientSkeleton rt this gsk)))
         \<and> s \<le> real (nat \<lceil>s\<rceil>) \<and> real (nat \<lceil>s\<rceil>) < s + 1"
proof -
  have "1 \<le> s" using assms(5) by (rule steps_at_least_one)
  then have "s \<le> real (nat \<lceil>s\<rceil>) \<and> real (nat \<lceil>s\<rceil>) < s + 1" by linarith
  moreover have "SkinsAndAnimation_calculateBounds rt this gameObj
           = Some (sampledBounds
               (sampleRects rt (advances (timeStep this) (nat \<lceil>s\<rceil>))
                  (transientState rt anim gas) (transientSkeleton rt this gsk)))"
    using assms(1-5)
    by (simp add: SkinsAndAnimation_calculateBounds_def Let_def transientData_def
      transientState_def transientSkeleton_def sampleLoop_fold [OF assms(6)] advances_upt
      sampledBounds_def collapse_def zeroRect_def)
  ultimately show ?thesis by blast
qed

text \<open>
  The animation \<open>walk\<close> of the recording runtime lasts \<open>0.55\<close> and the default time step is
  \<open>0.05\<close>: the quotient of the two binary64 numbers is \<open>11\<close>, and eleven samples are taken.
\<close>

theorem sampling_loop_witness:
  "SkinsAndAnimation_calculateBounds tracing
       (newProvider (Some ''walk'') (Some [''red'', ''blue'']) None)
       \<lparr>skeleton = Some [], animationState = Some []\<rparr>
     = Some \<lparr>x = Fin (- 24), y = Fin 4, width = Fin 21, height = Fin 2\<rparr>
   \<and> duration tracing (binary64 (55 / 100))
       / timeStep (newProvider (Some ''walk'') (Some [''red'', ''blue'']) None) = Fin 11"
proof -
  let ?p = "newProvider (Some ''walk'') (Some [''red'', ''blue'']) None"
  let ?g = "\<lparr>skeleton = Some ([] :: call list), animationState = Some ([] :: call list)\<rparr>"
  have g1: "skeleton ?g = Some []" and g2: "animationState ?g = Some []" by simp_all
  have p: "animation ?p = Some ''walk''" by (simp add: newProvider_def)
  have a: "findAnimation tracing (transientData tracing []) ''walk'' = Some (binary64 (55 / 100))"
    by (simp add: tracing_def)
  have d: "duration tracing u = u" for u
    by (simp add: tracing_def)
  have t: "timeStep ?p = binary64 (5 / 100)"
    by (simp add: newProvider_def)
  have q: "duration tracing (binary64 (55 / 100)) / timeStep ?p = Fin 11"
    by (simp only: d t binary64_055 binary64_005 quotient_055_005)
  have s: "Math_max (duration tracing (binary64 (55 / 100)) / timeStep ?p) (Fin 1) = Fin 11"
    by (simp only: q) (simp add: Math_max_def)
  have le: "(11::real) \<le> 2 ^ 53" by simp
  have n: "nat \<lceil>11::real\<rceil> = 11" by simp
  have r: "sampledBounds (sampleRects tracing (advances (timeStep ?p) (nat \<lceil>11::real\<rceil>))
             (transientState tracing (binary64 (55 / 100)) []) (transientSkeleton tracing ?p []))
           = \<lparr>x = Fin (- 24), y = Fin 4, width = Fin 21, height = Fin 2\<rparr>"
    unfolding n
    by (simp add: eval_nat_numeral advances_def transientState_def transientSkeleton_def tracing_def
        newProvider_def sampledBounds_def foldSample_def Math_min_def Math_max_def js_equals_def
        minus_jsnum_def binary64_wholes)
  from sampling_loop [OF g1 g2 p a s le] show ?thesis
    by (simp only: r q)
qed

text \<open>
  The other cases of \<open>steps\<close>. Above \<open>2^53\<close> (\<open>Infinity\<close> included, a \<open>timeStep\<close> of zero
  with a positive duration) the counter reaches \<open>2^53\<close> and stays there, so the loop never
  ends and the call does not return; when \<open>steps\<close> is \<open>NaN\<close> (zero divided by zero) no
  sample is taken and the result is the all-zero rectangle.
\<close>

lemma sampleLoop_stuck:
  assumes "sampleLoop rt ts steps i ast sk acc = Some r"
  shows "\<not> (Fin (2 ^ 53) < steps \<and> (\<exists>k. k \<le> 2 ^ 53 \<and> i = Fin (real k)))"
  using assms
proof (rule sampleLoop.raw_induct
        [where P = "\<lambda>rt ts steps i ast sk acc r.
                      \<not> (Fin (2 ^ 53) < steps \<and> (\<exists>k. k \<le> 2 ^ 53 \<and> i = Fin (real k)))", rotated])
  fix loop :: "('a, 'b, 'c, 'd, 'e, 'f) spine \<Rightarrow> jsnum \<Rightarrow> jsnum \<Rightarrow> jsnum \<Rightarrow> 'd \<Rightarrow> 'c \<Rightarrow> corners
                 \<Rightarrow> corners option"
    and rt ts steps i ast sk acc r
  assume IH: "\<And>rt ts steps i ast sk acc r. loop rt ts steps i ast sk acc = Some r \<Longrightarrow>
                \<not> (Fin (2 ^ 53) < steps \<and> (\<exists>k. k \<le> 2 ^ 53 \<and> i = Fin (real k)))"
    and body: "(if i < steps then
        let ast = update rt (if Fin 0 < i then ts else Fin 0) ast;
            (ast, sk) = applyTo rt ast sk;
            sk = updateWorldTransform rt sk;
            bounds = getBoundsRect rt sk;
            mnX = Math_min (minX acc) (x bounds);
            mnY = Math_min (minY acc) (y bounds);
            mxX = Math_max (maxX acc) (mnX + width bounds);
            mxY = Math_max (maxY acc) (mnY + height bounds)
        in loop rt ts steps (i + Fin 1) ast sk
             \<lparr>minX = mnX, minY = mnY, maxX = mxX, maxY = mxY\<rparr>
      else Some acc) = Some r"
  show "\<not> (Fin (2 ^ 53) < steps \<and> (\<exists>k. k \<le> 2 ^ 53 \<and> i = Fin (real k)))"
  proof
    assume "Fin (2 ^ 53) < steps \<and> (\<exists>k. k \<le> 2 ^ 53 \<and> i = Fin (real k))"
    then obtain k :: nat where big: "Fin (2 ^ 53) < steps" and k: "k \<le> 2 ^ 53" and i: "i = Fin (real k)"
      by blast
    have rk: "real k \<le> 2 ^ 53" using k by (metis of_nat_le_iff of_nat_numeral of_nat_power)
    have lt: "i < steps" using big rk by (cases steps) (simp_all add: i)
    have "\<exists>k'. k' \<le> 2 ^ 53 \<and> i + Fin 1 = Fin (real k')"
    proof (cases "k < 2 ^ 53")
      case True
      then have "Suc k \<le> 2 ^ 53 \<and> i + Fin 1 = Fin (real (Suc k))"
        using counter_next [OF True] by (simp add: i)
      then show ?thesis by blast
    next
      case False
      with k have "k = 2 ^ 53" by simp
      then have "(2::nat) ^ 53 \<le> 2 ^ 53 \<and> i + Fin 1 = Fin (real ((2::nat) ^ 53))"
        using counter_stuck by (simp add: i)
      then show ?thesis by blast
    qed
    with big have nxt: "Fin (2 ^ 53) < steps \<and> (\<exists>k'. k' \<le> 2 ^ 53 \<and> i + Fin 1 = Fin (real k'))" by blast
    from body lt obtain ast' sk' acc' where "loop rt ts steps (i + Fin 1) ast' sk' acc' = Some r"
      by (auto simp add: Let_def split: prod.splits)
    from IH [OF this] nxt show False by blast
  qed
qed

lemma endless_sampling:
  assumes "skeleton gameObj = Some gsk" and "animationState gameObj = Some gas"
    and "animation this = Some name"
    and "findAnimation rt (transientData rt gsk) name = Some anim"
    and "Fin (2 ^ 53) < Math_max (duration rt anim / timeStep this) (Fin 1)"
  shows "SkinsAndAnimation_calculateBounds rt this gameObj = None"
proof -
  have "sampleLoop rt ts steps (Fin 0) ast sk acc = None"
    if "Fin (2 ^ 53) < steps" for ts steps ast sk acc
  proof (cases "sampleLoop rt ts steps (Fin 0) ast sk acc")
    case (Some r)
    from sampleLoop_stuck [OF this] that have "\<not> (\<exists>k::nat. k \<le> 2 ^ 53 \<and> Fin 0 = Fin (real k))"
      by blast
    moreover have "(0::nat) \<le> 2 ^ 53 \<and> Fin 0 = Fin (real (0::nat))" by simp
    ultimately show ?thesis by blast
  qed simp
  then show ?thesis
    using assms
    by (simp add: SkinsAndAnimation_calculateBounds_def Let_def transientData_def)
qed

lemma no_sample_for_NaN:
  assumes "skeleton gameObj = Some gsk" and "animationState gameObj = Some gas"
    and "animation this = Some name"
    and "findAnimation rt (transientData rt gsk) name = Some anim"
    and "Math_max (duration rt anim / timeStep this) (Fin 1) = NaN"
  shows "SkinsAndAnimation_calculateBounds rt this gameObj = Some zeroRect"
proof -
  have "sampleLoop rt ts NaN (Fin 0) ast sk acc = Some acc" for ts ast sk acc
    by (subst sampleLoop.simps) simp
  then show ?thesis
    using assms
    by (simp add: SkinsAndAnimation_calculateBounds_def Let_def transientData_def collapse_def
        js_equals_def minus_jsnum_def)
qed

text \<open>
  C7: for a game object without a skeleton both providers return the all-zero rectangle,
  and so does the sampling provider for a game object without an animation state.
\<close>

theorem bounds_without_skeleton:
  "(skeleton gameObj = None \<longrightarrow>
      SetupPose_calculateBounds rt gameObj = \<lparr>x = Fin 0, y = Fin 0, width = Fin 0, height = Fin 0\<rparr>
      \<and> SkinsAndAnimation_calculateBounds rt this gameObj
          = Some \<lparr>x = Fin 0, y = Fin 0, width = Fin 0, height = Fin 0\<rparr>)
   \<and> (animationState gameObj = None \<longrightarrow>
      SkinsAndAnimation_calculateBounds rt this gameObj
          = Some \<lparr>x = Fin 0, y = Fin 0, width = Fin 0, height = Fin 0\<rparr>)"
  by (simp add: SetupPose_calculateBounds_def SkinsAndAnimation_calculateBounds_def zeroRect_def
      split: option.splits)

theorem bounds_without_skeleton_witness:
  "SetupPose_calculateBounds tracing \<lparr>skeleton = None, animationState = Some []\<rparr>
     = \<lparr>x = Fin 0, y = Fin 0, width = Fin 0, height = Fin 0\<rparr>
   \<and> SkinsAndAnimation_calculateBounds tracing (newProvider (Some ''walk'') None None)
        \<lparr>skeleton = None, animationState = Some []\<rparr>
     = Some \<lparr>x = Fin 0, y = Fin 0, width = Fin 0, height = Fin 0\<rparr>
   \<and> SkinsAndAnimation_calculateBounds tracing (newProvider (Some ''walk'') None None)
        \<lparr>skeleton = Some [], animationState = None\<rparr>
     = Some \<lparr>x = Fin 0, y = Fin 0, width = Fin 0, height = Fin 0\<rparr>"
  using bounds_without_skeleton [of "\<lparr>skeleton = None, animationState = Some []\<rparr>" tracing
          "newProvider (Some ''walk'') None None"]
        bounds_without_skeleton [of "\<lparr>skeleton = Some [], animationState = None\<rparr>" tracing
          "newProvider (Some ''walk'') None None"]
  by simp

text \<open>
  C10: an animation name that the skeleton data does not know gives the result of
  \<open>animation = null\<close>, and the call returns: for a game object with a skeleton and an
  animation state the result is the bounds of the transient skeleton in its setup pose
  after one recomputation of the world transforms, no animation applied, or the all-zero
  rectangle when the width of these bounds is \<open>-Infinity\<close>; for any other game object it is
  the all-zero rectangle.
\<close>

theorem unknown_animation_is_setup_pose:
  assumes "\<And>gsk. skeleton gameObj = Some gsk \<Longrightarrow>
             findAnimation rt (transientData rt gsk) name = None"
  shows "SkinsAndAnimation_calculateBounds rt (this\<lparr>animation := Some name\<rparr>) gameObj
           = SkinsAndAnimation_calculateBounds rt (this\<lparr>animation := None\<rparr>) gameObj
         \<and> SkinsAndAnimation_calculateBounds rt (this\<lparr>animation := Some name\<rparr>) gameObj \<noteq> None
         \<and> SkinsAndAnimation_calculateBounds rt (this\<lparr>animation := Some name\<rparr>) gameObj
           = Some (case skeleton gameObj of
                     None \<Rightarrow> \<lparr>x = Fin 0, y = Fin 0, width = Fin 0, height = Fin 0\<rparr>
                   | Some gsk \<Rightarrow>
                       (case animationState gameObj of
                          None \<Rightarrow> \<lparr>x = Fin 0, y = Fin 0, width = Fin 0, height = Fin 0\<rparr>
                        | Some gas \<Rightarrow>
                            let bounds = getBoundsRect rt
                                  (updateWorldTransform rt (transientSkeleton rt this gsk))
                            in if width bounds = NInf
                               then \<lparr>x = Fin 0, y = Fin 0, width = Fin 0, height = Fin 0\<rparr>
                               else bounds))"
  using assms
  by (auto simp add: SkinsAndAnimation_calculateBounds_def Let_def transientData_def
      transientSkeleton_def collapse_def js_equals_def zeroRect_def
      split: option.splits)

text \<open>
  The animation \<open>run\<close> is unknown to the recording runtime; with skeletons that have
  nothing to draw the result is the all-zero rectangle.
\<close>

theorem unknown_animation_is_setup_pose_witness:
  "SkinsAndAnimation_calculateBounds tracing
       \<lparr>animation = Some ''run'', skins = [''red''], timeStep = Fin 1\<rparr>
       \<lparr>skeleton = Some [], animationState = Some []\<rparr>
     = Some \<lparr>x = Fin (- 3), y = Fin 3, width = Fin 1, height = Fin 2\<rparr>
   \<and> SkinsAndAnimation_calculateBounds tracing
       \<lparr>animation = None, skins = [''red''], timeStep = Fin 1\<rparr>
       \<lparr>skeleton = Some [], animationState = Some []\<rparr>
     = Some \<lparr>x = Fin (- 3), y = Fin 3, width = Fin 1, height = Fin 2\<rparr>
   \<and> SkinsAndAnimation_calculateBounds nothingToDraw
       \<lparr>animation = Some ''run'', skins = [''red''], timeStep = Fin 1\<rparr>
       \<lparr>skeleton = Some [], animationState = Some []\<rparr>
     = Some \<lparr>x = Fin 0, y = Fin 0, width = Fin 0, height = Fin 0\<rparr>"
proof -
  let ?g = "\<lparr>skeleton = Some ([] :: call list), animationState = Some ([] :: call list)\<rparr>"
  let ?q = "\<lparr>animation = None, skins = [''red''], timeStep = Fin 1\<rparr>"
  have t: "findAnimation tracing (transientData tracing gsk) ''run'' = None" for gsk
    by (simp add: tracing_def)
  have n: "findAnimation nothingToDraw (transientData nothingToDraw gsk) ''run'' = None" for gsk
    by (simp add: nothingToDraw_def tracing_def)
  note T = unknown_animation_is_setup_pose [of ?g tracing "''run''" ?q, OF t]
  note N = unknown_animation_is_setup_pose [of ?g nothingToDraw "''run''" ?q, OF n]
  have v1: "SkinsAndAnimation_calculateBounds tracing (?q\<lparr>animation := Some ''run''\<rparr>) ?g
      = Some \<lparr>x = Fin (- 3), y = Fin 3, width = Fin 1, height = Fin 2\<rparr>"
    using T [THEN conjunct2, THEN conjunct2]
    by (simp add: transientSkeleton_def tracing_def)
  have e1: "SkinsAndAnimation_calculateBounds tracing (?q\<lparr>animation := None\<rparr>) ?g
      = SkinsAndAnimation_calculateBounds tracing (?q\<lparr>animation := Some ''run''\<rparr>) ?g"
    using T [THEN conjunct1] by simp
  have v2: "SkinsAndAnimation_calculateBounds nothingToDraw (?q\<lparr>animation := Some ''run''\<rparr>) ?g
      = Some \<lparr>x = Fin 0, y = Fin 0, width = Fin 0, height = Fin 0\<rparr>"
    using N [THEN conjunct2, THEN conjunct2]
    by (simp add: transientSkeleton_def nothingToDraw_def tracing_def)
  from v1 e1 v2 show ?thesis by simp
qed

text \<open>
  C4: for a game object with a skeleton and an animation state, the sampling provider with
  \<open>animation = null\<close> and the default skin selection (no skin names, the only selection the
  setup-pose provider has) returns the rectangle of \<open>SetupPoseBoundsProvider\<close>.
\<close>

theorem null_animation_matches_setup_pose:
  assumes "skeleton gameObj = Some gsk" and "animationState gameObj = Some gas"
    and "animation this = None" and "skins this = []"
  shows "SkinsAndAnimation_calculateBounds rt this gameObj
           = Some (SetupPose_calculateBounds rt gameObj)"
  using assms
  by (simp add: SkinsAndAnimation_calculateBounds_def SetupPose_calculateBounds_def Let_def)

theorem null_animation_matches_setup_pose_witness:
  "SkinsAndAnimation_calculateBounds tracing (newProvider None None None)
       \<lparr>skeleton = Some [], animationState = Some []\<rparr>
     = Some (SetupPose_calculateBounds tracing \<lparr>skeleton = Some [], animationState = Some []\<rparr>)
   \<and> SetupPose_calculateBounds tracing \<lparr>skeleton = Some [], animationState = Some []\<rparr>
     = \<lparr>x = Fin (- 2), y = Fin 2, width = Fin 1, height = Fin 2\<rparr>"
  using null_animation_matches_setup_pose [of "\<lparr>skeleton = Some [], animationState = Some []\<rparr>"
      "[]" "[]" "newProvider None None None" tracing]
  by (simp add: newProvider_def SetupPose_calculateBounds_def tracing_def collapse_def
      js_equals_def)

section \<open>Properties of updating the pose\<close>

text \<open>
  C8: on an object whose animation state and skeleton are bound (and stay bound through
  the first hook), \<open>updatePose\<close> is the composition of exactly five steps in this order:
  advance the animation state by \<open>delta / 1000\<close> seconds, apply it to the skeleton, call
  \<open>beforeUpdateWorldTransforms\<close>, recompute the world transforms, call
  \<open>afterUpdateWorldTransforms\<close>.
\<close>

theorem updatePose_sequence:
  assumes "animationState this \<noteq> None" and "skeleton this \<noteq> None"
    and "skeleton (before (applyAnimation rt (advanceTime rt (delta / Fin 1000) this))) \<noteq> None"
  shows "updatePose rt before after delta this
           = Inr (after (recomputeWorld rt (before (applyAnimation rt
                    (advanceTime rt (delta / Fin 1000) this)))))"
  using assms
  by (auto simp add: updatePose_def advanceTime_def applyAnimation_def recomputeWorld_def Let_def
      split: option.splits prod.splits)

text \<open>
  With the recording runtime and recording hooks the two histories show the order of the
  calls: the update before the application, the application before the first hook, the
  world transforms between the hooks. A \<open>delta\<close> of \<open>16\<close> milliseconds is an update by
  \<open>0.016\<close>, the binary64 number nearest to \<open>16 / 1000\<close>.
\<close>

theorem updatePose_sequence_witness:
  "updatePose tracing (recordHook BeforeHook) (recordHook AfterHook) (Fin 16)
       \<lparr>skeleton = Some [], animationState = Some []\<rparr>
     = Inr \<lparr>skeleton = Some [Apply, BeforeHook, WorldTransform, AfterHook],
            animationState = Some [Update (Fin (1152921504606847 / 72057594037927936)),
                                   Apply, BeforeHook, AfterHook]\<rparr>"
  using updatePose_sequence [of "\<lparr>skeleton = Some [], animationState = Some []\<rparr>"
      "recordHook BeforeHook" tracing "Fin 16" "recordHook AfterHook"]
  by (simp add: advanceTime_def applyAnimation_def recomputeWorld_def recordHook_def tracing_def
      binary64_0016)


section \<open>Properties of the coordinate transforms\<close>

lemma round_trip_x:
  fixes n :: real
  assumes "n = ma * md - mb * mc" and "n \<noteq> 0"
  shows "(px * ma + py * mc + mtx) * (md / n) + (px * mb + py * md + mty) * (- mc / n)
           + (mc * mty - md * mtx) / n = px"
proof -
  have "(px * ma + py * mc + mtx) * (md / n) + (px * mb + py * md + mty) * (- mc / n)
           + (mc * mty - md * mtx) / n
        = ((px * ma + py * mc + mtx) * md - (px * mb + py * md + mty) * mc
            + (mc * mty - md * mtx)) / n"
    by (simp add: add_divide_distrib diff_divide_distrib)
  also have "(px * ma + py * mc + mtx) * md - (px * mb + py * md + mty) * mc
            + (mc * mty - md * mtx) = px * n"
    by (simp add: assms(1) algebra_simps)
  finally show ?thesis using assms(2) by simp
qed

lemma round_trip_y:
  fixes n :: real
  assumes "n = ma * md - mb * mc" and "n \<noteq> 0"
  shows "(px * ma + py * mc + mtx) * (- mb / n) + (px * mb + py * md + mty) * (ma / n)
           + - (ma * mty - mb * mtx) / n = py"
proof -
  have "(px * ma + py * mc + mtx) * (- mb / n) + (px * mb + py * md + mty) * (ma / n)
           + - (ma * mty - mb * mtx) / n
        = ((px * mb + py * md + mty) * ma - (px * ma + py * mc + mtx) * mb
            - (ma * mty - mb * mtx)) / n"
    by (simp add: add_divide_distrib diff_divide_distrib)
  also have "(px * mb + py * md + mty) * ma - (px * ma + py * mc + mtx) * mb
            - (ma * mty - mb * mtx) = py * n"
    by (simp add: assms(1) algebra_simps)
  finally show ?thesis using assms(2) by simp
qed

text \<open>
  C6, as the code has it: for every point and every transform with a determinant other than
  zero, \<open>skeletonToPhaserWorldCoordinates\<close> followed by \<open>phaserWorldCoordinatesToSkeleton\<close>
  gives the point back whenever none of the products, sums and quotients computed on the
  way is rounded, that is, whenever each of their exact values is a binary64 number.
\<close>

theorem world_round_trip:
  assumes det: "ma * md - mb * mc \<noteq> 0"
    and exact: "list_all representable (roundTripResults ma mb mc md mtx mty px py)"
  shows "phaserWorldCoordinatesToSkeleton
           \<lparr>a = Fin ma, b = Fin mb, c = Fin mc, d = Fin md, tx = Fin mtx, ty = Fin mty\<rparr>
           (skeletonToPhaserWorldCoordinates
              \<lparr>a = Fin ma, b = Fin mb, c = Fin mc, d = Fin md, tx = Fin mtx, ty = Fin mty\<rparr>
              \<lparr>x = Fin px, y = Fin py\<rparr>)
         = \<lparr>x = Fin px, y = Fin py\<rparr>"
proof -
  define n where "n = ma * md - mb * mc"
  define wx where "wx = px * ma + py * mc + mtx"
  define wy where "wy = px * mb + py * md + mty"
  have n: "n \<noteq> 0" using det by (simp add: n_def)
  note r = exact [unfolded roundTripResults_def Let_def list.pred_inject representable_def,
      folded n_def, folded wx_def wy_def]
  have fwd: "skeletonToPhaserWorldCoordinates
              \<lparr>a = Fin ma, b = Fin mb, c = Fin mc, d = Fin md, tx = Fin mtx, ty = Fin mty\<rparr>
              \<lparr>x = Fin px, y = Fin py\<rparr> = \<lparr>x = Fin wx, y = Fin wy\<rparr>"
    using r by (simp add: skeletonToPhaserWorldCoordinates_def wx_def wy_def)
  have inv: "invert \<lparr>a = Fin ma, b = Fin mb, c = Fin mc, d = Fin md, tx = Fin mtx, ty = Fin mty\<rparr>
      = \<lparr>a = Fin (md / n), b = Fin (- mb / n), c = Fin (- mc / n), d = Fin (ma / n),
         tx = Fin ((mc * mty - md * mtx) / n), ty = Fin (- (ma * mty - mb * mtx) / n)\<rparr>"
    using r n by (simp add: invert_def Let_def minus_jsnum_def n_def)
  have bwd: "phaserWorldCoordinatesToSkeleton
           \<lparr>a = Fin ma, b = Fin mb, c = Fin mc, d = Fin md, tx = Fin mtx, ty = Fin mty\<rparr>
           \<lparr>x = Fin wx, y = Fin wy\<rparr>
         = \<lparr>x = Fin (wx * (md / n) + wy * (- mc / n) + (mc * mty - md * mtx) / n),
            y = Fin (wx * (- mb / n) + wy * (ma / n) + - (ma * mty - mb * mtx) / n)\<rparr>"
    using r by (simp add: phaserWorldCoordinatesToSkeleton_def inv)
  show ?thesis
    unfolding fwd bwd
    using round_trip_x [OF n_def n, of px py mtx mty] round_trip_y [OF n_def n, of px py mtx mty]
    by (simp only: wx_def wy_def)
qed


text \<open>
  A quarter turn scaled by two and moved by \<open>(3, 4)\<close>, at the point \<open>(5, 7)\<close>: every
  result on the way is a whole number or a half.
\<close>

theorem world_round_trip_witness:
  "phaserWorldCoordinatesToSkeleton
       \<lparr>a = Fin 0, b = Fin 2, c = Fin (- 2), d = Fin 0, tx = Fin 3, ty = Fin 4\<rparr>
       (skeletonToPhaserWorldCoordinates
          \<lparr>a = Fin 0, b = Fin 2, c = Fin (- 2), d = Fin 0, tx = Fin 3, ty = Fin 4\<rparr>
          \<lparr>x = Fin 5, y = Fin 7\<rparr>)
     = \<lparr>x = Fin 5, y = Fin 7\<rparr>
   \<and> skeletonToPhaserWorldCoordinates
          \<lparr>a = Fin 0, b = Fin 2, c = Fin (- 2), d = Fin 0, tx = Fin 3, ty = Fin 4\<rparr>
          \<lparr>x = Fin 5, y = Fin 7\<rparr>
     = \<lparr>x = Fin (- 11), y = Fin 14\<rparr>"
proof -
  have det: "(0::real) * 0 - 2 * (- 2) \<noteq> 0" by simp
  have exact: "list_all representable (roundTripResults 0 2 (- 2) 0 3 4 5 7)"
    by (simp add: roundTripResults_def representable_def binary64_wholes binary64_halves)
  have fwd: "skeletonToPhaserWorldCoordinates
          \<lparr>a = Fin 0, b = Fin 2, c = Fin (- 2), d = Fin 0, tx = Fin 3, ty = Fin 4\<rparr>
          \<lparr>x = Fin 5, y = Fin 7\<rparr>
     = \<lparr>x = Fin (- 11), y = Fin 14\<rparr>"
    by (simp add: skeletonToPhaserWorldCoordinates_def binary64_wholes)
  from world_round_trip [OF det exact] fwd show ?thesis by simp
qed

text \<open>
  C6 as written fails, since results are rounded: for the identity scale moved by \<open>0.5\<close>
  along \<open>x\<close>, at the point whose \<open>x\<close> is the binary64 number nearest to \<open>0.1\<close>, the sum
  \<open>0.1 + 0.5\<close> is rounded, and subtracting \<open>0.5\<close> gives \<open>0.09999999999999998\<close>.
\<close>

theorem rounded_round_trip_counterexample:
  "phaserWorldCoordinatesToSkeleton
       \<lparr>a = Fin 1, b = Fin 0, c = Fin 0, d = Fin 1, tx = Fin (1 / 2), ty = Fin 0\<rparr>
       (skeletonToPhaserWorldCoordinates
          \<lparr>a = Fin 1, b = Fin 0, c = Fin 0, d = Fin 1, tx = Fin (1 / 2), ty = Fin 0\<rparr>
          \<lparr>x = Fin (3602879701896397 / 36028797018963968), y = Fin 0\<rparr>)
     = \<lparr>x = Fin (900719925474099 / 9007199254740992), y = Fin 0\<rparr>
   \<and> phaserWorldCoordinatesToSkeleton
       \<lparr>a = Fin 1, b = Fin 0, c = Fin 0, d = Fin 1, tx = Fin (1 / 2), ty = Fin 0\<rparr>
       (skeletonToPhaserWorldCoordinates
          \<lparr>a = Fin 1, b = Fin 0, c = Fin 0, d = Fin 1, tx = Fin (1 / 2), ty = Fin 0\<rparr>
          \<lparr>x = Fin (3602879701896397 / 36028797018963968), y = Fin 0\<rparr>)
     \<noteq> \<lparr>x = Fin (3602879701896397 / 36028797018963968), y = Fin 0\<rparr>
   \<and> binary64 (1 / 10) = Fin (3602879701896397 / 36028797018963968)
   \<and> (1::real) * 1 - 0 * 0 \<noteq> 0"
proof -
  have tenth: "binary64 (1 / 10) = Fin (3602879701896397 / 36028797018963968)"
    unfolding binary64_def Let_def
    apply (simp add: exponent_def bitLength.simps)
    apply (simp add: ulp_def)
    apply (simp add: roundHalfEven_def)
    done
  have fwd: "skeletonToPhaserWorldCoordinates
          \<lparr>a = Fin 1, b = Fin 0, c = Fin 0, d = Fin 1, tx = Fin (1 / 2), ty = Fin 0\<rparr>
          \<lparr>x = Fin (3602879701896397 / 36028797018963968), y = Fin 0\<rparr>
      = \<lparr>x = Fin (5404319552844595 / 9007199254740992), y = Fin 0\<rparr>"
    unfolding skeletonToPhaserWorldCoordinates_def Let_def
    by (simp add: binary64_wholes binary64_tenth_steps)
  have inv: "invert \<lparr>a = Fin 1, b = Fin 0, c = Fin 0, d = Fin 1, tx = Fin (1 / 2), ty = Fin 0\<rparr>
      = \<lparr>a = Fin 1, b = Fin 0, c = Fin 0, d = Fin 1, tx = Fin (- (1 / 2)), ty = Fin 0\<rparr>"
    by (simp add: invert_def Let_def minus_jsnum_def binary64_wholes binary64_halves)
  have bwd: "phaserWorldCoordinatesToSkeleton
       \<lparr>a = Fin 1, b = Fin 0, c = Fin 0, d = Fin 1, tx = Fin (1 / 2), ty = Fin 0\<rparr>
       \<lparr>x = Fin (5404319552844595 / 9007199254740992), y = Fin 0\<rparr>
     = \<lparr>x = Fin (900719925474099 / 9007199254740992), y = Fin 0\<rparr>"
    unfolding phaserWorldCoordinatesToSkeleton_def Let_def inv
    by (simp add: binary64_wholes binary64_tenth_steps)
  show ?thesis
    unfolding fwd bwd tenth by simp
qed


section \<open>Properties of the atlas loader\<close>

lemma splitLines_not_Nil: "splitLines str \<noteq> []"
  by (induction str rule: splitLines.induct) (auto split: list.splits)

lemma scanLines_afterBlank:
  "t \<le> length lines \<Longrightarrow> scanLines lines t textures = textures @ afterBlank (drop t lines)"
proof (induction lines t textures rule: scanLines.induct)
  case (1 lines t textures)
  show ?case
  proof (cases "t < length lines")
    case False
    with "1.prems" show ?thesis by (subst scanLines.simps) simp
  next
    case True
    note lt = this
    show ?thesis
    proof (cases "Suc t < length lines")
      case True
      then have d: "drop t lines = lines ! t # lines ! Suc t # drop (Suc (Suc t)) lines"
        and d': "drop (Suc t) lines = lines ! Suc t # drop (Suc (Suc t)) lines"
        using lt by (simp_all add: Cons_nth_drop_Suc)
      show ?thesis
      proof (cases "trim (lines ! t) = []")
        case True
        have g: "trim (lines ! t) = [] \<and> int t < int (length lines) - 1"
          using True \<open>Suc t < length lines\<close> by simp
        have "scanLines lines t textures = scanLines lines (t + 1) (textures @ [lines ! (t + 1)])"
          by (subst scanLines.simps) (simp only: lt g if_True simp_thms)
        also have "\<dots> = (textures @ [lines ! (t + 1)]) @ afterBlank (drop (t + 1) lines)"
          using "1.IH"(1) [OF lt g] lt by simp
        finally show ?thesis using True by (simp add: d d')
      next
        case False
        have g: "\<not> (trim (lines ! t) = [] \<and> int t < int (length lines) - 1)"
          using False by simp
        have "scanLines lines t textures = scanLines lines (t + 1) textures"
          by (subst scanLines.simps) (simp only: lt g if_True if_False)
        also have "\<dots> = textures @ afterBlank (drop (t + 1) lines)"
          using "1.IH"(2) [OF lt g] lt by simp
        finally show ?thesis using False by (simp add: d d')
      qed
    next
      case False
      then have last: "Suc t = length lines" using lt by simp
      then have d: "drop t lines = [lines ! t]"
        using lt by (metis Cons_nth_drop_Suc drop_all le_refl)
      have g: "\<not> (trim (lines ! t) = [] \<and> int t < int (length lines) - 1)"
        using last by simp
      have "scanLines lines t textures = scanLines lines (t + 1) textures"
        by (subst scanLines.simps) (simp only: lt g if_True if_False)
      also have "\<dots> = textures @ afterBlank (drop (t + 1) lines)"
        using "1.IH"(2) [OF lt g] lt by simp
      finally show ?thesis using last by (simp add: d)
    qed
  qed
qed

lemma discoverTextures_afterBlank:
  "discoverTextures str = hd (splitLines str) # afterBlank (tl (splitLines str))"
proof -
  have ne: "splitLines str \<noteq> []" by (rule splitLines_not_Nil)
  then have "1 \<le> length (splitLines str)" by (cases "splitLines str") simp_all
  then show ?thesis
    using ne by (simp add: discoverTextures_def Let_def scanLines_afterBlank drop_Suc hd_conv_nth)
qed

lemma matchBasePath_dir:
  assumes "CHR ''/'' \<notin> set fname" and "CR \<notin> set (dir @ ''/'' @ fname)"
    and "LF \<notin> set (dir @ ''/'' @ fname)"
  shows "matchBasePath (dir @ ''/'' @ fname) = Some (dir @ ''/'')"
proof -
  have tw: "takeWhile (\<lambda>c. c \<noteq> CR \<and> c \<noteq> LF) (dir @ ''/'' @ fname) = dir @ ''/'' @ fname"
    using assms(2,3) by (auto simp add: takeWhile_eq_all_conv)
  have rv: "rev (dir @ ''/'' @ fname) = rev fname @ CHR ''/'' # rev dir" by simp
  have dw: "dropWhile (\<lambda>c. c \<noteq> CHR ''/'') (rev fname @ CHR ''/'' # rev dir) = CHR ''/'' # rev dir"
    using assms(1) by (auto simp add: dropWhile_append3)
  have sl: "CHR ''/'' \<in> set (dir @ ''/'' @ fname)" by simp
  show ?thesis
    unfolding matchBasePath_def Let_def tw rv dw using sl by simp
qed

lemma trim_Nil: "trim [] = []"
  by (simp add: trim_def)

lemma trim_Cons_not_blank: "\<not> isWhiteSpace ch \<Longrightarrow> trim (ch # cs) \<noteq> []"
  by (simp add: trim_def)

lemma discover_blankAfterName:
  "discoverTextures blankAfterNamePayload = [''page1.png'', ''size:100,100'', ''page2.png'', ''...'']"
  by (simp add: discoverTextures_afterBlank blankAfterNamePayload_def nl_def LF_def CR_def
      trim_Nil trim_Cons_not_blank isWhiteSpace_def)

lemma discover_twoPage:
  "discoverTextures twoPagePayload = [''page1.png'', ''page2.png'']"
  by (simp add: discoverTextures_afterBlank twoPagePayload_def nl_def LF_def CR_def
      trim_Nil trim_Cons_not_blank isWhiteSpace_def)

lemma discover_single: "discoverTextures ''file.png'' = [''file.png'']"
  by (simp add: discoverTextures_afterBlank CR_def LF_def)

lemma keyExists_addFile:
  "keyExists (addFile ld f) g = (keyExists ld g \<or> (type g = type f \<and> key g = key f))"
  by (auto simp add: keyExists_def addFile_def)

lemma keyExists_ImageFile:
  "keyExists ld (ImageFile k u) = keyExists ld (ImageFile k u')"
  by (simp add: keyExists_def ImageFile_def)

lemma addImages_keyExists:
  "addImages ld this bp k texs = (ld', this') \<Longrightarrow>
     keyExists ld' g
       = (keyExists ld g \<or> (type g = ''image'' \<and> key g \<in> (\<lambda>t. k @ ''!'' @ t) ` set texs))"
proof (induction texs arbitrary: ld this)
  case Nil
  then show ?case by simp
next
  case (Cons t texs)
  let ?img = "ImageFile (k @ ''!'' @ t) (plusString bp t) :: 'a loaderFile"
  show ?case
  proof (cases "keyExists ld ?img")
    case True
    then have "addImages ld this bp k texs = (ld', this')"
      using Cons.prems by (simp add: Let_def)
    from Cons.IH [OF this] True show ?thesis
      by (auto simp add: keyExists_def ImageFile_def)
  next
    case False
    then have "addImages (addFile ld ?img) (addToMultiFile this ?img) bp k texs = (ld', this')"
      using Cons.prems by (simp add: Let_def)
    from Cons.IH [OF this] show ?thesis
      by (auto simp add: keyExists_addFile ImageFile_def)
  qed
qed

lemma addImages_files_mono:
  "addImages ld this bp k texs = (ld', this') \<Longrightarrow> set (files this) \<subseteq> set (files this')"
proof (induction texs arbitrary: ld this)
  case Nil
  then show ?case by simp
next
  case (Cons t texs)
  let ?img = "ImageFile (k @ ''!'' @ t) (plusString bp t) :: 'a loaderFile"
  show ?case
  proof (cases "keyExists ld ?img")
    case True
    then have "addImages ld this bp k texs = (ld', this')"
      using Cons.prems by (simp add: Let_def)
    from Cons.IH [OF this] show ?thesis .
  next
    case False
    then have "addImages (addFile ld ?img) (addToMultiFile this ?img) bp k texs = (ld', this')"
      using Cons.prems by (simp add: Let_def)
    from Cons.IH [OF this] show ?thesis by (auto simp add: addToMultiFile_def)
  qed
qed

lemma addImages_adds:
  assumes "t \<in> set texs"
    and "\<not> keyExists ld (ImageFile (k @ ''!'' @ t) u)"
    and "addImages ld this bp k texs = (ld', this')"
  shows "ImageFile (k @ ''!'' @ t) (plusString bp t) \<in> set (files this')"
  using assms
proof (induction texs arbitrary: ld this)
  case Nil
  then show ?case by simp
next
  case (Cons s texs)
  let ?img = "ImageFile (k @ ''!'' @ s) (plusString bp s) :: 'a loaderFile"
  show ?case
  proof (cases "s = t")
    case True
    then have "\<not> keyExists ld ?img"
      using Cons.prems(2) keyExists_ImageFile by blast
    then have step: "addImages (addFile ld ?img) (addToMultiFile this ?img) bp k texs = (ld', this')"
      using Cons.prems(3) by (simp add: Let_def)
    have "?img \<in> set (files (addToMultiFile this ?img))" by (simp add: addToMultiFile_def)
    then show ?thesis using addImages_files_mono [OF step] True by blast
  next
    case False
    then have t: "t \<in> set texs" using Cons.prems(1) by simp
    show ?thesis
    proof (cases "keyExists ld ?img")
      case True
      then have "addImages ld this bp k texs = (ld', this')"
        using Cons.prems(3) by (simp add: Let_def)
      from Cons.IH [OF t Cons.prems(2) this] show ?thesis .
    next
      case ne: False
      then have step: "addImages (addFile ld ?img) (addToMultiFile this ?img) bp k texs = (ld', this')"
        using Cons.prems(3) by (simp add: Let_def)
      have "\<not> keyExists (addFile ld ?img) (ImageFile (k @ ''!'' @ t) u)"
        using Cons.prems(2) False by (simp add: keyExists_addFile ImageFile_def)
      from Cons.IH [OF t this step] show ?thesis .
    qed
  qed
qed

lemma keys_differ:
  assumes "keyA \<noteq> keyB" and "\<not> prefix (keyA @ ''!'') keyB" and "\<not> prefix (keyB @ ''!'') keyA"
  shows "keyA @ ''!'' @ s \<noteq> keyB @ ''!'' @ t"
proof
  assume "keyA @ ''!'' @ s = keyB @ ''!'' @ t"
  then obtain us where "(keyA = keyB @ us \<and> us @ ''!'' @ s = ''!'' @ t)
      \<or> (keyA @ us = keyB \<and> ''!'' @ s = us @ ''!'' @ t)"
    by (auto simp add: append_eq_append_conv2)
  then show False
  proof
    assume h: "keyA = keyB @ us \<and> us @ ''!'' @ s = ''!'' @ t"
    with assms(1) have "us \<noteq> []" by auto
    with h obtain vs where "us = CHR ''!'' # vs" by (cases us) auto
    with h have "prefix (keyB @ ''!'') keyA" by (simp add: prefix_def)
    with assms(3) show False by simp
  next
    assume h: "keyA @ us = keyB \<and> ''!'' @ s = us @ ''!'' @ t"
    with assms(1) have "us \<noteq> []" by auto
    with h obtain vs where "us = CHR ''!'' # vs" by (cases us) auto
    with h have "prefix (keyA @ ''!'') keyB" by (auto simp add: prefix_def)
    with assms(2) show False by simp
  qed
qed

lemma addImages_premultipliedAlpha:
  "addImages ld this bp k texs = (ld', this') \<Longrightarrow> premultipliedAlpha this' = premultipliedAlpha this"
  by (induction texs arbitrary: ld this) (auto simp add: Let_def addToMultiFile_def split: if_splits)

lemma onFileComplete_premultipliedAlpha:
  "onFileComplete ld this f = Inr (ld', this') \<Longrightarrow> premultipliedAlpha this' = premultipliedAlpha this"
  by (auto simp add: onFileComplete_def Let_def split: if_splits fileData.splits
      dest: addImages_premultipliedAlpha)

lemma indexOf_sublist: "(0 \<le> indexOf str pat) = sublist pat str"
  by (induction str) (auto simp add: Let_def sublist_Cons_right)

lemma cacheFiles_images:
  "\<forall>f \<in> set fs. type f = ''image'' \<Longrightarrow>
     \<exists>ld'. cacheFiles pma ld fs = Inr (ld', fs) \<and> textCache ld' = textCache ld
       \<and> fileKeys ld' = fileKeys ld
       \<and> (\<forall>q. textureManager ld' q
              = (case textureManager ld q of
                   Some v \<Rightarrow> Some v
                 | None \<Rightarrow> map_of (map (\<lambda>f. (key f, data f)) fs) q))"
proof (induction fs arbitrary: ld)
  case Nil
  then show ?case by (simp split: option.splits)
next
  case (Cons f fs)
  let ?ld = "if textureManager ld (key f) = None
             then ld\<lparr>textureManager := (textureManager ld)(key f \<mapsto> data f)\<rparr> else ld"
  from Cons.prems have "\<forall>f \<in> set fs. type f = ''image''" by simp
  from Cons.IH [OF this, of ?ld] obtain ld' where
    cf: "cacheFiles pma ?ld fs = Inr (ld', fs)" and tc: "textCache ld' = textCache ?ld"
    and fk: "fileKeys ld' = fileKeys ?ld"
    and tm: "\<And>q. textureManager ld' q
              = (case textureManager ?ld q of
                   Some v \<Rightarrow> Some v
                 | None \<Rightarrow> map_of (map (\<lambda>f. (key f, data f)) fs) q)"
    by blast
  have "cacheFiles pma ld (f # fs) = Inr (ld', f # fs)"
    using cf Cons.prems by (simp add: Let_def)
  moreover have "textCache ld' = textCache ld" using tc by simp
  moreover have "fileKeys ld' = fileKeys ld" using fk by simp
  moreover have "textureManager ld' q
              = (case textureManager ld q of
                   Some v \<Rightarrow> Some v
                 | None \<Rightarrow> map_of (map (\<lambda>f. (key f, data f)) (f # fs)) q)" for q
    by (simp add: tm split: option.splits)
  ultimately show ?case by blast
qed

text \<open>
  What the loop over the textures does to the loader and the job: the image files that the
  loader did not know are appended to the job and their keys to the loader's table.
\<close>

lemma addImages_shape:
  "\<exists>imgs. addImages ld this bp k texs
       = (ld\<lparr>fileKeys := fileKeys ld @ map (\<lambda>g. (''image'', key g)) imgs\<rparr>,
          this\<lparr>files := files this @ imgs,
               pending := pending this + int (length imgs),
               complete := complete this \<and> imgs = []\<rparr>)
     \<and> set imgs \<subseteq> (\<lambda>t. ImageFile (k @ ''!'' @ t) (plusString bp t)) ` set texs"
proof (induction texs arbitrary: ld this)
  case Nil
  have "addImages ld this bp k []
       = (ld\<lparr>fileKeys := fileKeys ld @ map (\<lambda>g. (''image'', key g)) []\<rparr>,
          this\<lparr>files := files this @ [],
               pending := pending this + int (length ([] :: 'a loaderFile list)),
               complete := complete this \<and> ([] :: 'a loaderFile list) = []\<rparr>)
     \<and> set [] \<subseteq> (\<lambda>t. ImageFile (k @ ''!'' @ t) (plusString bp t) :: 'a loaderFile) ` set []"
    by simp
  then show ?case by blast
next
  case (Cons t texs)
  let ?img = "ImageFile (k @ ''!'' @ t) (plusString bp t) :: 'a loaderFile"
  show ?case
  proof (cases "keyExists ld ?img")
    case True
    from Cons.IH [of ld this] obtain imgs where
      "addImages ld this bp k texs
       = (ld\<lparr>fileKeys := fileKeys ld @ map (\<lambda>g. (''image'', key g)) imgs\<rparr>,
          this\<lparr>files := files this @ imgs,
               pending := pending this + int (length imgs),
               complete := complete this \<and> imgs = []\<rparr>)"
      and "set imgs \<subseteq> (\<lambda>t. ImageFile (k @ ''!'' @ t) (plusString bp t)) ` set texs"
      by blast
    then have "addImages ld this bp k (t # texs)
       = (ld\<lparr>fileKeys := fileKeys ld @ map (\<lambda>g. (''image'', key g)) imgs\<rparr>,
          this\<lparr>files := files this @ imgs,
               pending := pending this + int (length imgs),
               complete := complete this \<and> imgs = []\<rparr>)
     \<and> set imgs \<subseteq> (\<lambda>t. ImageFile (k @ ''!'' @ t) (plusString bp t)) ` set (t # texs)"
      using True by (auto simp add: Let_def)
    then show ?thesis by blast
  next
    case False
    from Cons.IH [of "addFile ld ?img" "addToMultiFile this ?img"] obtain imgs where
      step: "addImages (addFile ld ?img) (addToMultiFile this ?img) bp k texs
       = ((addFile ld ?img)\<lparr>fileKeys := fileKeys (addFile ld ?img) @ map (\<lambda>g. (''image'', key g)) imgs\<rparr>,
          (addToMultiFile this ?img)\<lparr>files := files (addToMultiFile this ?img) @ imgs,
               pending := pending (addToMultiFile this ?img) + int (length imgs),
               complete := complete (addToMultiFile this ?img) \<and> imgs = []\<rparr>)"
      and sub: "set imgs \<subseteq> (\<lambda>t. ImageFile (k @ ''!'' @ t) (plusString bp t)) ` set texs"
      by blast
    have "addImages ld this bp k (t # texs)
       = (ld\<lparr>fileKeys := fileKeys ld @ map (\<lambda>g. (''image'', key g)) (?img # imgs)\<rparr>,
          this\<lparr>files := files this @ (?img # imgs),
               pending := pending this + int (length (?img # imgs)),
               complete := complete this \<and> (?img # imgs) = []\<rparr>)"
      using False step by (simp add: Let_def addFile_def addToMultiFile_def ImageFile_def)
    moreover have "set (?img # imgs) \<subseteq> (\<lambda>t. ImageFile (k @ ''!'' @ t) (plusString bp t)) ` set (t # texs)"
      using sub by auto
    ultimately show ?thesis by blast
  qed
qed


text \<open>
  The downloads of the image files of a job whose first file is the text file: every image
  file gets its source and its data, the job has that many pending files less, and the
  loader is as before.
\<close>

lemma completeImages_all:
  assumes "files job = tf # map (downloadedImage img) (take i imgs) @ drop i imgs"
    and "\<forall>g \<in> set imgs. type g = ''image''"
    and "i \<le> length imgs"
  shows "completeImages ld job img [Suc i..<Suc (length imgs)]
           = Inr (ld, job\<lparr>files := tf # map (downloadedImage img) imgs,
                         pending := pending job - int (length imgs - i)\<rparr>)"
  using assms
proof (induction "length imgs - i" arbitrary: i job)
  case 0
  then have "i = length imgs" by simp
  then show ?case using "0.prems"(1) by simp
next
  case (Suc m)
  then have lt: "i < length imgs" and m: "m = length imgs - Suc i" by arith+
  let ?dl = "downloadedImage img"
  let ?g = "imgs ! i"
  let ?job1 = "loaded job (Suc i) (url (files job ! Suc i)) (Image img)"
  have len: "length (map ?dl (take i imgs)) = i" using lt by simp
  have nth: "files job ! Suc i = ?g"
    using Suc.prems(1) lt len by (simp add: nth_append)
  have dr: "drop i imgs = ?g # drop (Suc i) imgs"
    using lt by (simp add: Cons_nth_drop_Suc)
  have tk: "take (Suc i) imgs = take i imgs @ [?g]"
    using lt by (simp add: take_Suc_conv_app_nth)
  have upd: "(files job)[Suc i := ?g\<lparr>src := url ?g, data := Image img\<rparr>]
      = tf # map ?dl (take (Suc i) imgs) @ drop (Suc i) imgs"
    using len by (simp add: Suc.prems(1) dr tk list_update_append downloadedImage_def)
  have f1: "files ?job1 = tf # map ?dl (take (Suc i) imgs) @ drop (Suc i) imgs"
    using upd by (simp add: loaded_def nth)
  have nth1: "files ?job1 ! Suc i = ?dl ?g"
    using len lt by (simp add: f1 tk nth_append)
  have ty: "type (?dl ?g) = ''image''"
    using Suc.prems(2) lt by (simp add: downloadedImage_def)
  have mem: "?dl ?g \<in> set (files ?job1)"
    by (simp add: f1 tk)
  have ofc: "onFileComplete ld ?job1 (files ?job1 ! Suc i) = Inr (ld, ?job1\<lparr>pending := pending ?job1 - 1\<rparr>)"
    unfolding nth1 using ty mem by (simp add: onFileComplete_def Let_def)
  have f2: "files (?job1\<lparr>pending := pending ?job1 - 1\<rparr>)
      = tf # map ?dl (take (Suc i) imgs) @ drop (Suc i) imgs"
    using f1 by simp
  have le: "Suc i \<le> length imgs" using lt by simp
  from Suc.hyps(1) [OF m f2 Suc.prems(2) le]
  have rest: "completeImages ld (?job1\<lparr>pending := pending ?job1 - 1\<rparr>) img [Suc (Suc i)..<Suc (length imgs)]
      = Inr (ld, ?job1\<lparr>pending := pending ?job1 - 1\<rparr>
                   \<lparr>files := tf # map ?dl imgs,
                    pending := pending (?job1\<lparr>pending := pending ?job1 - 1\<rparr>)
                                 - int (length imgs - Suc i)\<rparr>)" .
  have up: "[Suc i..<Suc (length imgs)] = Suc i # [Suc (Suc i)..<Suc (length imgs)]"
    using lt by (simp add: upt_conv_Cons del: upt_Suc)
  have "completeImages ld job img [Suc i..<Suc (length imgs)]
      = completeImages ld (?job1\<lparr>pending := pending ?job1 - 1\<rparr>) img [Suc (Suc i)..<Suc (length imgs)]"
    unfolding up by (simp add: Let_def ofc)
  also note rest
  also have "?job1\<lparr>pending := pending ?job1 - 1\<rparr>
                   \<lparr>files := tf # map ?dl imgs,
                    pending := pending (?job1\<lparr>pending := pending ?job1 - 1\<rparr>)
                                 - int (length imgs - Suc i)\<rparr>
      = job\<lparr>files := tf # map ?dl imgs, pending := pending job - int (length imgs - i)\<rparr>"
    using lt by (simp add: loaded_def)
  finally show ?case .
qed


text \<open>
  A whole load of one atlas: it succeeds; the image files it adds are among those of the
  textures of the text, and every texture whose key the loader did not know is among them;
  their keys enter the loader's table, their images the texture manager (under keys that
  had no texture), and the job ends with the text file and the downloaded image files.
\<close>

lemma loadAtlas_result:
  "\<exists>ld' job' imgs tf.
      loadAtlas ld args source txt img = Inr (ld', job')
    \<and> set imgs \<subseteq> (\<lambda>t. ImageFile (suppliedKey args @ ''!'' @ t)
                          (plusString (matchBasePath source) t)) ` set (discoverTextures txt)
    \<and> (\<forall>t u. t \<in> set (discoverTextures txt)
           \<and> \<not> keyExists ld (ImageFile (suppliedKey args @ ''!'' @ t) u)
          \<longrightarrow> ImageFile (suppliedKey args @ ''!'' @ t) (plusString (matchBasePath source) t)
                \<in> set imgs)
    \<and> fileKeys ld' = fileKeys ld @ map (\<lambda>g. (''image'', key g)) imgs
    \<and> (\<forall>q. textureManager ld' q
           = (case textureManager ld q of
                Some v \<Rightarrow> Some v
              | None \<Rightarrow> if q \<in> key ` set imgs then Some (Image img) else None))
    \<and> files job' = tf # map (downloadedImage img) imgs"
proof -
  let ?k = "suppliedKey args"
  let ?bp = "matchBasePath source"
  let ?job0 = "loaded (SpineAtlasFile args) 0 source (Text txt) :: 'a multiFile"
  obtain u pma where job: "(SpineAtlasFile args :: 'a multiFile)
      = \<lparr>files = [TextFile ?k u], pending = 1, failed = 0, complete = False,
         premultipliedAlpha = pma\<rparr>"
    by (cases args) (simp_all add: SpineAtlasFile_def suppliedKey_def)
  let ?tf = "(TextFile ?k u :: 'a loaderFile)\<lparr>src := source, data := Text txt\<rparr>"
  have job0: "?job0 = \<lparr>files = [?tf], pending = 1, failed = 0, complete = False,
         premultipliedAlpha = pma\<rparr>"
    by (simp add: loaded_def job)
  let ?job0' = "\<lparr>files = [?tf], pending = 0, failed = 0, complete = False,
         premultipliedAlpha = pma\<rparr> :: 'a multiFile"
  from addImages_shape [of ld ?job0' ?bp ?k "discoverTextures txt"] obtain imgs where
    ai: "addImages ld ?job0' ?bp ?k (discoverTextures txt)
       = (ld\<lparr>fileKeys := fileKeys ld @ map (\<lambda>g. (''image'', key g)) imgs\<rparr>,
          ?job0'\<lparr>files := files ?job0' @ imgs,
               pending := pending ?job0' + int (length imgs),
               complete := complete ?job0' \<and> imgs = []\<rparr>)"
    and sub: "set imgs \<subseteq> (\<lambda>t. ImageFile (?k @ ''!'' @ t) (plusString ?bp t)) ` set (discoverTextures txt)"
    by blast
  let ?ld1 = "ld\<lparr>fileKeys := fileKeys ld @ map (\<lambda>g. (''image'', key g)) imgs\<rparr>"
  let ?job1 = "\<lparr>files = ?tf # imgs, pending = int (length imgs), failed = 0, complete = False,
         premultipliedAlpha = pma\<rparr> :: 'a multiFile"
  have ai': "addImages ld ?job0' ?bp ?k (discoverTextures txt) = (?ld1, ?job1)"
    using ai by simp
  have first: "onFileComplete ld ?job0 (files ?job0 ! 0) = Inr (?ld1, ?job1)"
    unfolding job0 using ai' by (simp add: onFileComplete_def TextFile_def)
  have img_type: "\<forall>g \<in> set imgs. type g = ''image''"
    using sub by (auto simp add: ImageFile_def)
  have ci: "completeImages ?ld1 ?job1 img [1..<length (files ?job1)]
      = Inr (?ld1, ?job1\<lparr>files := ?tf # map (downloadedImage img) imgs,
                          pending := pending ?job1 - int (length imgs - 0)\<rparr>)"
    using completeImages_all [of ?job1 ?tf img 0 imgs ?ld1, OF _ img_type] by simp
  let ?job2 = "\<lparr>files = ?tf # map (downloadedImage img) imgs, pending = 0, failed = 0,
         complete = False, premultipliedAlpha = pma\<rparr> :: 'a multiFile"
  have ci': "completeImages ?ld1 ?job1 img [1..<length (files ?job1)] = Inr (?ld1, ?job2)"
    using ci by simp
  let ?flag = "pma \<or> 0 \<le> indexOf txt ''pma: true''"
  let ?tf' = "?tf\<lparr>data := Atlas (Text txt) ?flag\<rparr>"
  let ?ld2 = "?ld1\<lparr>textCache := (textCache ?ld1)(?k \<mapsto> Atlas (Text txt) ?flag)\<rparr>"
  have dl_type: "\<forall>g \<in> set (map (downloadedImage img) imgs). type g = ''image''"
    using img_type by (simp add: downloadedImage_def)
  from cacheFiles_images [OF dl_type, of pma ?ld2] obtain ld' where
    cf: "cacheFiles pma ?ld2 (map (downloadedImage img) imgs)
           = Inr (ld', map (downloadedImage img) imgs)"
    and fk: "fileKeys ld' = fileKeys ?ld2"
    and tm: "\<And>q. textureManager ld' q
              = (case textureManager ?ld2 q of
                   Some v \<Rightarrow> Some v
                 | None \<Rightarrow> map_of (map (\<lambda>f. (key f, data f)) (map (downloadedImage img) imgs)) q)"
    by blast
  have atc: "addToCache ?ld1 ?job2 = Inr (ld', ?job2\<lparr>files := ?tf' # map (downloadedImage img) imgs\<rparr>)"
    using cf by (cases pma) (simp_all add: addToCache_def isReadyToProcess_def TextFile_def Let_def)
  have whole: "loadAtlas ld args source txt img
      = Inr (ld', ?job2\<lparr>files := ?tf' # map (downloadedImage img) imgs\<rparr>)"
    unfolding loadAtlas_def Let_def first by (simp only: sum.case prod.case ci' atc)
  have mo: "map_of (map (\<lambda>f. (key f, data f)) (map (downloadedImage img) imgs)) q
      = (if q \<in> key ` set imgs then Some (Image img) else None)" for q
    by (induction imgs) (auto simp add: downloadedImage_def)
  have tm': "textureManager ld' q
           = (case textureManager ld q of
                Some v \<Rightarrow> Some v
              | None \<Rightarrow> if q \<in> key ` set imgs then Some (Image img) else None)" for q
    using mo [of q] by (cases "textureManager ld q") (simp_all add: tm)
  have added: "ImageFile (?k @ ''!'' @ t) (plusString ?bp t) \<in> set imgs"
    if t: "t \<in> set (discoverTextures txt)" and nk: "\<not> keyExists ld (ImageFile (?k @ ''!'' @ t) u')"
    for t u'
  proof -
    from addImages_adds [OF t nk ai']
    have "ImageFile (?k @ ''!'' @ t) (plusString ?bp t) \<in> set (files ?job1)" .
    then show ?thesis by (simp add: ImageFile_def TextFile_def)
  qed
  have c2: "\<forall>t u. t \<in> set (discoverTextures txt) \<and> \<not> keyExists ld (ImageFile (?k @ ''!'' @ t) u)
          \<longrightarrow> ImageFile (?k @ ''!'' @ t) (plusString ?bp t) \<in> set imgs"
    using added by blast
  have c5: "\<forall>q. textureManager ld' q
           = (case textureManager ld q of
                Some v \<Rightarrow> Some v
              | None \<Rightarrow> if q \<in> key ` set imgs then Some (Image img) else None)"
    using tm' by blast
  have c4: "fileKeys ld' = fileKeys ld @ map (\<lambda>g. (''image'', key g)) imgs"
    using fk by simp
  have c6: "files (?job2\<lparr>files := ?tf' # map (downloadedImage img) imgs\<rparr>)
          = ?tf' # map (downloadedImage img) imgs"
    by simp
  from whole sub c2 c4 c5 c6 show ?thesis by blast
qed


lemma two_page_tasks_any_source:
  assumes "f \<in> set (files this)" and "type f = ''text''" and "data f = Text twoPagePayload"
    and "\<not> keyExists ld (ImageFile (key f @ ''!page1.png'') u1)"
    and "\<not> keyExists ld (ImageFile (key f @ ''!page2.png'') u2)"
  shows "onFileComplete ld this f
           = Inr (ld\<lparr>fileKeys := fileKeys ld @ [(''image'', key f @ ''!page1.png''),
                                                (''image'', key f @ ''!page2.png'')]\<rparr>,
                  this\<lparr>files := files this @
                         [ImageFile (key f @ ''!page1.png'')
                            (plusString (matchBasePath (src f)) ''page1.png''),
                          ImageFile (key f @ ''!page2.png'')
                            (plusString (matchBasePath (src f)) ''page2.png'')],
                       pending := pending this + 1,
                       complete := False\<rparr>)"
proof -
  let ?bp = "matchBasePath (src f)"
  let ?i1 = "ImageFile (key f @ ''!page1.png'') (plusString ?bp ''page1.png'') :: 'a loaderFile"
  let ?i2 = "ImageFile (key f @ ''!page2.png'') (plusString ?bp ''page2.png'') :: 'a loaderFile"
  have n1: "\<not> keyExists ld ?i1" using assms(4) keyExists_ImageFile by blast
  have n2: "\<not> keyExists (addFile ld ?i1) ?i2"
    using assms(5) keyExists_ImageFile [of ld "key f @ ''!page2.png''" u2]
    by (simp add: keyExists_addFile ImageFile_def)
  have new: "addFile l g = l\<lparr>fileKeys := fileKeys l @ [(type g, key g)]\<rparr>"
    if "\<not> keyExists l g" for l :: "'a loader" and g :: "'a loaderFile"
    using that by (simp add: addFile_def)
  have a1: "addFile ld ?i1 = ld\<lparr>fileKeys := fileKeys ld @ [(''image'', key f @ ''!page1.png'')]\<rparr>"
    using new [OF n1] by (simp add: ImageFile_def)
  have a2: "addFile (addFile ld ?i1) ?i2
      = ld\<lparr>fileKeys := fileKeys ld @ [(''image'', key f @ ''!page1.png''),
                                        (''image'', key f @ ''!page2.png'')]\<rparr>"
    unfolding new [OF n2] unfolding a1 by (simp add: ImageFile_def)
  show ?thesis
    using assms(1-3) n1 n2
    by (simp add: onFileComplete_def discover_twoPage Let_def a2 addToMultiFile_def)
qed

text \<open>A source URL without a slash has no base path: the URLs start with the text \<open>null\<close>.\<close>

lemma no_base_path:
  "CHR ''/'' \<notin> set source \<Longrightarrow> plusString (matchBasePath source) name = ''null'' @ name"
proof -
  assume "CHR ''/'' \<notin> set source"
  then have "CHR ''/'' \<notin> set (takeWhile (\<lambda>c. c \<noteq> CR \<and> c \<noteq> LF) source)"
    using set_takeWhileD by fastforce
  then show ?thesis by (simp add: matchBasePath_def plusString_def)
qed

text \<open>
  C2, as the code has it: for the atlas text with the lines \<open>page1.png\<close>,
  \<open>size:100,100\<close>, \<open>...\<close>, a blank line, \<open>page2.png\<close> and \<open>...\<close> (a blank line between
  the page blocks only), an atlas file whose source URL has a slash and no line break, and
  a loader that does not know the two keys yet, the completion handler adds exactly two
  image files to the job and their keys to the loader's table, and the job waits for both:
  the keys are \<open><atlasKey>!page1.png\<close> and \<open><atlasKey>!page2.png\<close>, the URLs are
  \<open>page1.png\<close> and \<open>page2.png\<close> after the part of the source URL up to and including its
  last slash.
\<close>

theorem two_page_atlas_tasks:
  assumes "f \<in> set (files this)" and "type f = ''text''" and "data f = Text twoPagePayload"
    and "src f = dir @ ''/'' @ fname" and "CHR ''/'' \<notin> set fname"
    and "CR \<notin> set (src f)" and "LF \<notin> set (src f)"
    and "\<not> keyExists ld (ImageFile (key f @ ''!page1.png'') u1)"
    and "\<not> keyExists ld (ImageFile (key f @ ''!page2.png'') u2)"
  shows "onFileComplete ld this f
           = Inr (ld\<lparr>fileKeys := fileKeys ld @ [(''image'', key f @ ''!page1.png''),
                                                (''image'', key f @ ''!page2.png'')]\<rparr>,
                  this\<lparr>files := files this @
                         [ImageFile (key f @ ''!page1.png'') (dir @ ''/page1.png''),
                          ImageFile (key f @ ''!page2.png'') (dir @ ''/page2.png'')],
                       pending := pending this + 1,
                       complete := False\<rparr>)"
proof -
  have bp: "matchBasePath (src f) = Some (dir @ ''/'')"
    using assms(4-7) matchBasePath_dir [of fname dir] by simp
  show ?thesis
    using two_page_tasks_any_source [OF assms(1-3) assms(8,9)]
    by (simp add: bp plusString_def)
qed

theorem two_page_atlas_tasks_witness:
  "onFileComplete (emptyLoader :: nat loader)
       (downloadedAtlas (Positional ''hero'' ''hero.atlas'' None) ''assets/hero.atlas''
          twoPagePayload)
       \<lparr>type = ''text'', key = ''hero'', url = ''hero.atlas'', src = ''assets/hero.atlas'',
        data = Text twoPagePayload\<rparr>
     = Inr (\<lparr>fileKeys = [(''image'', ''hero!page1.png''), (''image'', ''hero!page2.png'')],
             textureManager = Map.empty, textCache = Map.empty\<rparr>,
            \<lparr>files = [\<lparr>type = ''text'', key = ''hero'', url = ''hero.atlas'',
                         src = ''assets/hero.atlas'', data = Text twoPagePayload\<rparr>,
                       ImageFile ''hero!page1.png'' ''assets/page1.png'',
                       ImageFile ''hero!page2.png'' ''assets/page2.png''],
             pending = 2, failed = 0, complete = False, premultipliedAlpha = True\<rparr>)"
  using two_page_atlas_tasks [of
      "\<lparr>type = ''text'', key = ''hero'', url = ''hero.atlas'', src = ''assets/hero.atlas'',
        data = Text twoPagePayload\<rparr> :: nat loaderFile"
      "downloadedAtlas (Positional ''hero'' ''hero.atlas'' None) ''assets/hero.atlas'' twoPagePayload"
      "''assets''" "''hero.atlas''" emptyLoader "[]" "[]"]
  by (auto simp add: downloadedAtlas_def loaded_def SpineAtlasFile_def TextFile_def CR_def LF_def
      keyExists_def emptyLoader_def ImageFile_def)

text \<open>
  For the text of C2 as written, with a blank line after each page name, the handler adds
  four image files: the lines \<open>size:100,100\<close> and \<open>...\<close> follow a blank line too.
\<close>

theorem blank_after_name_counterexample:
  "map_sum id (\<lambda>(ld, job). map key (tl (files job)))
       (onFileComplete (emptyLoader :: nat loader)
          (downloadedAtlas (Positional ''hero'' ''hero.atlas'' None) ''assets/hero.atlas''
             blankAfterNamePayload)
          \<lparr>type = ''text'', key = ''hero'', url = ''hero.atlas'', src = ''assets/hero.atlas'',
           data = Text blankAfterNamePayload\<rparr>)
     = Inr [''hero!page1.png'', ''hero!size:100,100'', ''hero!page2.png'', ''hero!...'']"
  by code_simp

text \<open>
  C5, as the code has it: for two atlases with distinct keys, neither of which is the other
  key followed by \<open>!\<close> and more text, whose texts both name the page image \<open>t\<close>, loaded one
  after the other by a loader that knows neither image key, both loads succeed, the loader's
  table has the two distinct image keys \<open><keyA>!t\<close> and \<open><keyB>!t\<close>, the texture manager
  has the first atlas's image under the first key and the second atlas's image under the
  second, and each job has its downloaded image file.
\<close>

theorem distinct_atlas_image_keys:
  assumes "suppliedKey argsA \<noteq> suppliedKey argsB"
    and "\<not> prefix (suppliedKey argsA @ ''!'') (suppliedKey argsB)"
    and "\<not> prefix (suppliedKey argsB @ ''!'') (suppliedKey argsA)"
    and "t \<in> set (discoverTextures txtA)" and "t \<in> set (discoverTextures txtB)"
    and "\<not> keyExists ld (ImageFile (suppliedKey argsA @ ''!'' @ t) uA)"
    and "\<not> keyExists ld (ImageFile (suppliedKey argsB @ ''!'' @ t) uB)"
  shows "\<exists>ld1 jobA ld2 jobB.
           loadAtlas ld argsA srcA txtA imgA = Inr (ld1, jobA)
         \<and> loadAtlas ld1 argsB srcB txtB imgB = Inr (ld2, jobB)
         \<and> suppliedKey argsA @ ''!'' @ t \<noteq> suppliedKey argsB @ ''!'' @ t
         \<and> textureManager ld2 (suppliedKey argsA @ ''!'' @ t) = Some (Image imgA)
         \<and> textureManager ld2 (suppliedKey argsB @ ''!'' @ t) = Some (Image imgB)
         \<and> (''image'', suppliedKey argsA @ ''!'' @ t) \<in> set (fileKeys ld2)
         \<and> (''image'', suppliedKey argsB @ ''!'' @ t) \<in> set (fileKeys ld2)
         \<and> downloadedImage imgA
               (ImageFile (suppliedKey argsA @ ''!'' @ t) (plusString (matchBasePath srcA) t))
             \<in> set (files jobA)
         \<and> downloadedImage imgB
               (ImageFile (suppliedKey argsB @ ''!'' @ t) (plusString (matchBasePath srcB) t))
             \<in> set (files jobB)"
proof -
  let ?kA = "suppliedKey argsA" and ?kB = "suppliedKey argsB"
  let ?iA = "ImageFile (?kA @ ''!'' @ t) (plusString (matchBasePath srcA) t) :: 'a loaderFile"
  let ?iB = "ImageFile (?kB @ ''!'' @ t) (plusString (matchBasePath srcB) t) :: 'a loaderFile"
  from loadAtlas_result [of ld argsA srcA txtA imgA] obtain ld1 jobA imgsA tfA where
    la: "loadAtlas ld argsA srcA txtA imgA = Inr (ld1, jobA)"
    and subA: "set imgsA \<subseteq> (\<lambda>s. ImageFile (?kA @ ''!'' @ s) (plusString (matchBasePath srcA) s))
                  ` set (discoverTextures txtA)"
    and addA: "\<forall>s u. s \<in> set (discoverTextures txtA) \<and> \<not> keyExists ld (ImageFile (?kA @ ''!'' @ s) u)
          \<longrightarrow> ImageFile (?kA @ ''!'' @ s) (plusString (matchBasePath srcA) s) \<in> set imgsA"
    and fkA: "fileKeys ld1 = fileKeys ld @ map (\<lambda>g. (''image'', key g)) imgsA"
    and tmA: "\<forall>q. textureManager ld1 q
           = (case textureManager ld q of
                Some v \<Rightarrow> Some v
              | None \<Rightarrow> if q \<in> key ` set imgsA then Some (Image imgA) else None)"
    and fA: "files jobA = tfA # map (downloadedImage imgA) imgsA"
    by blast
  from loadAtlas_result [of ld1 argsB srcB txtB imgB] obtain ld2 jobB imgsB tfB where
    lb: "loadAtlas ld1 argsB srcB txtB imgB = Inr (ld2, jobB)"
    and addB: "\<forall>s u. s \<in> set (discoverTextures txtB) \<and> \<not> keyExists ld1 (ImageFile (?kB @ ''!'' @ s) u)
          \<longrightarrow> ImageFile (?kB @ ''!'' @ s) (plusString (matchBasePath srcB) s) \<in> set imgsB"
    and fkB: "fileKeys ld2 = fileKeys ld1 @ map (\<lambda>g. (''image'', key g)) imgsB"
    and tmB: "\<forall>q. textureManager ld2 q
           = (case textureManager ld1 q of
                Some v \<Rightarrow> Some v
              | None \<Rightarrow> if q \<in> key ` set imgsB then Some (Image imgB) else None)"
    and fB: "files jobB = tfB # map (downloadedImage imgB) imgsB"
    by blast
  have inA: "?iA \<in> set imgsA" using addA assms(4,6) by blast
  have noneA: "textureManager ld (?kA @ ''!'' @ t) = None"
    and noneB: "textureManager ld (?kB @ ''!'' @ t) = None"
    and nfB: "(''image'', ?kB @ ''!'' @ t) \<notin> set (fileKeys ld)"
    using assms(6,7) by (simp_all add: keyExists_def ImageFile_def)
  have keyA: "?kA @ ''!'' @ t \<in> key ` set imgsA"
    using inA by (force simp add: ImageFile_def)
  have tA1: "textureManager ld1 (?kA @ ''!'' @ t) = Some (Image imgA)"
    using tmA noneA keyA by simp
  have diff: "?kB @ ''!'' @ t \<noteq> ?kA @ ''!'' @ s" for s
    using keys_differ [OF assms(1-3), of s t] by simp
  have notB: "?kB @ ''!'' @ t \<notin> key ` set imgsA"
  proof
    assume "?kB @ ''!'' @ t \<in> key ` set imgsA"
    then obtain g where g: "g \<in> set imgsA" and kg: "key g = ?kB @ ''!'' @ t" by auto
    from g subA obtain s where "g = ImageFile (?kA @ ''!'' @ s) (plusString (matchBasePath srcA) s)"
      by auto
    then have "key g = ?kA @ ''!'' @ s" by (simp add: ImageFile_def)
    with kg diff [of s] show False by simp
  qed
  have tB1: "textureManager ld1 (?kB @ ''!'' @ t) = None"
    using tmA noneB notB by simp
  have "(''image'', ?kB @ ''!'' @ t) \<notin> set (fileKeys ld1)"
    using nfB notB by (auto simp add: fkA)
  then have "\<not> keyExists ld1 (ImageFile (?kB @ ''!'' @ t) uB)"
    using tB1 by (simp add: keyExists_def ImageFile_def)
  then have inB: "?iB \<in> set imgsB" using addB assms(5) by blast
  have keyB: "?kB @ ''!'' @ t \<in> key ` set imgsB"
    using inB by (force simp add: ImageFile_def)
  have tA2: "textureManager ld2 (?kA @ ''!'' @ t) = Some (Image imgA)"
    using tmB tA1 by simp
  have tB2: "textureManager ld2 (?kB @ ''!'' @ t) = Some (Image imgB)"
    using tmB tB1 keyB by simp
  have kA2: "(''image'', ?kA @ ''!'' @ t) \<in> set (fileKeys ld2)"
    using keyA by (auto simp add: fkB fkA)
  have kB2: "(''image'', ?kB @ ''!'' @ t) \<in> set (fileKeys ld2)"
    using keyB by (auto simp add: fkB)
  have dA: "downloadedImage imgA ?iA \<in> set (files jobA)" using inA by (simp add: fA)
  have dB: "downloadedImage imgB ?iB \<in> set (files jobB)" using inB by (simp add: fB)
  have ne: "?kA @ ''!'' @ t \<noteq> ?kB @ ''!'' @ t" using assms(1) by simp
  from la lb ne tA2 tB2 kA2 kB2 dA dB show ?thesis by blast
qed

theorem distinct_atlas_image_keys_witness:
  "\<exists>ld1 jobA ld2 jobB.
      loadAtlas (emptyLoader :: nat loader) (Positional ''atlasKeyA'' ''a.atlas'' None)
          ''a/a.atlas'' ''file.png'' 1 = Inr (ld1, jobA)
      \<and> loadAtlas ld1 (Config ''atlasKeyB'' ''b.atlas'' (Some False))
          ''b/b.atlas'' ''file.png'' 2 = Inr (ld2, jobB)
      \<and> ''atlasKeyA!file.png'' \<noteq> ''atlasKeyB!file.png''
      \<and> textureManager ld2 ''atlasKeyA!file.png'' = Some (Image 1)
      \<and> textureManager ld2 ''atlasKeyB!file.png'' = Some (Image 2)
      \<and> (''image'', ''atlasKeyA!file.png'') \<in> set (fileKeys ld2)
      \<and> (''image'', ''atlasKeyB!file.png'') \<in> set (fileKeys ld2)
      \<and> \<lparr>type = ''image'', key = ''atlasKeyA!file.png'', url = ''a/file.png'',
           src = ''a/file.png'', data = Image 1\<rparr> \<in> set (files jobA)
      \<and> \<lparr>type = ''image'', key = ''atlasKeyB!file.png'', url = ''b/file.png'',
           src = ''b/file.png'', data = Image 2\<rparr> \<in> set (files jobB)"
proof -
  have ma: "matchBasePath ''a/a.atlas'' = Some ''a/''" and mb: "matchBasePath ''b/b.atlas'' = Some ''b/''"
    by (simp_all add: matchBasePath_def CR_def LF_def)
  show ?thesis
    using distinct_atlas_image_keys [of "Positional ''atlasKeyA'' ''a.atlas'' None"
      "Config ''atlasKeyB'' ''b.atlas'' (Some False)" "''file.png''" "''file.png''" "''file.png''"
      "emptyLoader :: nat loader" "[]" "[]" "''a/a.atlas''" 1 "''b/b.atlas''" 2]
    by (simp add: discover_single suppliedKey_def keyExists_def emptyLoader_def ImageFile_def ma mb
        plusString_def downloadedImage_def)
qed

text \<open>
  Without the condition on the keys C5 fails: the atlas \<open>x\<close> with the pages \<open>z\<close> and \<open>y!z\<close>
  and the atlas \<open>x!y\<close> with the page \<open>z\<close> both name the page \<open>z\<close>, and after both loads the
  second job has no image file at all; the texture \<open>x!y!z\<close> is the first atlas's image.
\<close>

theorem shared_prefix_counterexample:
  "''z'' \<in> set (discoverTextures (''z'' @ nl @ nl @ ''y!z''))
   \<and> ''z'' \<in> set (discoverTextures ''z'')
   \<and> (case loadAtlas (emptyLoader :: nat loader) (Positional ''x'' ''x.atlas'' None)
              ''a/x.atlas'' (''z'' @ nl @ nl @ ''y!z'') 1 of
         Inl e \<Rightarrow> Inl e
       | Inr (ld, jobX) \<Rightarrow>
           map_sum id
             (\<lambda>(ld', jobXY). (map key (files jobX), map key (files jobXY),
                               textureManager ld' ''x!y!z''))
             (loadAtlas ld (Positional ''x!y'' ''xy.atlas'' None) ''b/xy.atlas'' ''z'' 2))
     = Inr ([''x'', ''x!z'', ''x!y!z''], [''x!y''], Some (Image 1))"
  by code_simp

text \<open>
  C1, as the code has it: for a ready atlas job made of its text file and image files, the
  flag that \<open>addToCache\<close> puts into the text cache is the disjunction of the job's flag (the
  flag supplied to the constructor, \<open>true\<close> when none was supplied) and the presence of
  \<open>pma: true\<close> in the atlas text.
\<close>

theorem cached_flag_is_disjunction:
  assumes "isReadyToProcess this" and "files this = tf # images"
    and "type tf = ''text''" and "data tf = Text body"
    and "\<forall>f \<in> set images. type f = ''image''"
    and "premultipliedAlpha this = premultipliedAlpha (SpineAtlasFile args :: 'a multiFile)"
  shows "\<exists>ld' this'. addToCache ld this = Inr (ld', this')
           \<and> textCache ld' (key tf)
               = Some (Atlas (Text body)
                         ((case suppliedFlag args of None \<Rightarrow> True | Some flag \<Rightarrow> flag)
                          \<or> sublist ''pma: true'' body))"
proof -
  have flag: "premultipliedAlpha this = (case suppliedFlag args of None \<Rightarrow> True | Some flag \<Rightarrow> flag)"
    using assms(6) by (simp add: SpineAtlasFile_def suppliedFlag_def split: atlasArgs.splits)
  let ?tf = "tf\<lparr>data := Atlas (Text body)
                 (premultipliedAlpha this \<or> 0 \<le> indexOf body ''pma: true'')\<rparr>"
  let ?ld = "ld\<lparr>textCache := (textCache ld)(key ?tf \<mapsto> data ?tf)\<rparr>"
  from cacheFiles_images [OF assms(5), of "premultipliedAlpha this" ?ld] obtain ld' where
    cf: "cacheFiles (premultipliedAlpha this) ?ld images = Inr (ld', images)"
    and tc: "textCache ld' = textCache ?ld" by blast
  have "addToCache ld this = Inr (ld', this\<lparr>files := ?tf # images\<rparr>)"
    using assms(1-4) cf by (cases "premultipliedAlpha this") (simp_all add: addToCache_def Let_def)
  moreover have "textCache ld' (key tf)
      = Some (Atlas (Text body)
                ((case suppliedFlag args of None \<Rightarrow> True | Some flag \<Rightarrow> flag)
                 \<or> sublist ''pma: true'' body))"
    using tc flag by (simp add: indexOf_sublist)
  ultimately show ?thesis by blast
qed

theorem cached_flag_is_disjunction_witness:
  "\<exists>ld' this'.
      addToCache (emptyLoader :: nat loader)
        \<lparr>files = [\<lparr>type = ''text'', key = ''hero'', url = ''hero.atlas'',
                     src = ''assets/hero.atlas'', data = Text ''hero.png''\<rparr>,
                   \<lparr>type = ''image'', key = ''hero!hero.png'', url = ''assets/hero.png'',
                     src = ''assets/hero.png'', data = Image 7\<rparr>],
         pending = 0, failed = 0, complete = False, premultipliedAlpha = False\<rparr>
        = Inr (ld', this')
      \<and> textCache ld' ''hero'' = Some (Atlas (Text ''hero.png'') False)"
proof -
  have "\<not> sublist ''pma: true'' ''hero.png''"
    by (simp add: indexOf_sublist [symmetric])
  then show ?thesis
    using cached_flag_is_disjunction [of
      "\<lparr>files = [\<lparr>type = ''text'', key = ''hero'', url = ''hero.atlas'',
                     src = ''assets/hero.atlas'', data = Text ''hero.png''\<rparr>,
                   \<lparr>type = ''image'', key = ''hero!hero.png'', url = ''assets/hero.png'',
                     src = ''assets/hero.png'', data = Image 7\<rparr>],
         pending = 0, failed = 0, complete = False, premultipliedAlpha = False\<rparr>"
      "\<lparr>type = ''text'', key = ''hero'', url = ''hero.atlas'',
                     src = ''assets/hero.atlas'', data = Text ''hero.png''\<rparr>"
      "[\<lparr>type = ''image'', key = ''hero!hero.png'', url = ''assets/hero.png'',
                     src = ''assets/hero.png'', data = Image 7\<rparr>]"
      "''hero.png''" "Positional ''hero'' ''hero.atlas'' (Some False)" emptyLoader]
    by (simp add: isReadyToProcess_def SpineAtlasFile_def suppliedFlag_def)
qed

text \<open>
  C1 as written fails: an atlas loaded with the explicit flag \<open>false\<close> whose text contains
  \<open>pma: true\<close> is cached with the flag \<open>true\<close>.
\<close>

theorem explicit_false_counterexample:
  "suppliedFlag (Positional ''hero'' ''hero.atlas'' (Some False)) = Some False
   \<and> 0 \<le> indexOf (''hero.png'' @ nl @ ''size: 64,64'' @ nl @ ''pma: true'') ''pma: true''
   \<and> map_sum id (\<lambda>(ld, job). textCache ld ''hero'')
       (loadAtlas (emptyLoader :: nat loader) (Positional ''hero'' ''hero.atlas'' (Some False))
          ''assets/hero.atlas'' (''hero.png'' @ nl @ ''size: 64,64'' @ nl @ ''pma: true'') 7)
     = Inr (Some (Atlas (Text (''hero.png'' @ nl @ ''size: 64,64'' @ nl @ ''pma: true'')) True))"
  by code_simp


section \<open>Properties of the skeleton data cache\<close>

lemma getAtlas_keeps_skeletonDataCache:
  "getAtlas io gm k = Inr (atlas, gm') \<Longrightarrow> skeletonDataCache gm' = skeletonDataCache gm"
  by (auto simp add: getAtlas_def Let_def split: option.splits sum.splits if_splits)

lemma getSkeletonData_caches:
  "getSkeletonData io gm dk ak = Inr (sd, gm') \<Longrightarrow> skeletonDataCache gm' (dk @ ak) = Some sd"
  by (auto simp add: getSkeletonData_def Let_def split: option.splits sum.splits prod.splits)

text \<open>
  C9: \<open>getSkeletonData\<close> caches under \<open>dataKey + atlasKey\<close>. After a call with one pair of
  keys has returned, a call with another pair that has the same concatenation (and whose
  atlas can be got) returns the data cached by the first call, whatever is loaded under
  the second pair's own keys.
\<close>

theorem combined_key_collision:
  assumes "getSkeletonData io gm dataKey1 atlasKey1 = Inr (sd1, gm1)"
    and "dataKey1 @ atlasKey1 = dataKey2 @ atlasKey2"
    and "getAtlas io gm1 atlasKey2 = Inr (atlas2, gm2)"
  shows "getSkeletonData io gm1 dataKey2 atlasKey2 = Inr (sd1, gm2)"
proof -
  have "skeletonDataCache gm1 (dataKey2 @ atlasKey2) = Some sd1"
    using getSkeletonData_caches [OF assms(1)] assms(2) by simp
  then have "skeletonDataCache gm2 (dataKey2 @ atlasKey2) = Some sd1"
    using getAtlas_keeps_skeletonDataCache [OF assms(3)] by simp
  then show ?thesis
    using assms(3) by (simp add: getSkeletonData_def)
qed

text \<open>
  The pairs \<open>(ab, c)\<close> and \<open>(a, bc)\<close>: the second call returns the data read from the
  skeleton file \<open>ab\<close> with the atlas \<open>c\<close>.
\<close>

theorem combined_key_collision_witness:
  "getSkeletonData symbolicIO loadedGame ''ab'' ''c''
     = Inr (FromJson ''atlas c'' ''skeleton ab'', gameAfterFirstCall)
   \<and> map_sum id fst (getSkeletonData symbolicIO gameAfterFirstCall ''a'' ''bc'')
     = Inr (FromJson ''atlas c'' ''skeleton ab'')"
proof -
  have first: "getSkeletonData symbolicIO loadedGame ''ab'' ''c''
     = Inr (FromJson ''atlas c'' ''skeleton ab'', gameAfterFirstCall)"
    by (simp add: getSkeletonData_def getAtlas_def symbolicIO_def loadedGame_def
        gameAfterFirstCall_def Let_def)
  have atlas: "getAtlas symbolicIO gameAfterFirstCall ''bc''
     = Inr (''atlas bc'',
            gameAfterFirstCall\<lparr>atlasCache := (atlasCache gameAfterFirstCall)(''bc'' \<mapsto> ''atlas bc'')\<rparr>)"
    by (simp add: getAtlas_def symbolicIO_def loadedGame_def gameAfterFirstCall_def Let_def)
  show ?thesis
    using combined_key_collision [OF first _ atlas, of "''a''"] first by simp
qed

end
